theory Spec2Isabelle
  imports Complex_Main "HOL-Library.Sublist"
begin

chapter \<open>The embedding\<close>

section \<open>JavaScript values shared by the modules\<close>

text \<open>
  JSON-compatible data (tool parameters, tool results, structured message content).
  \<^verbatim>\<open>JSON.stringify\<close> is a library function; the functions that call it take it as the
  parameter \<open>stringify\<close>.
\<close>

datatype json =
    JNull
  | JBool bool
  | JNum int
  | JStr string
  | JArr "json list"
  | JObj "(string \<times> json) list"

text \<open>
  A thrown value (or the reason of a rejected promise). \<open>ErrorObj m\<close> is an instance of
  \<^verbatim>\<open>Error\<close> whose message is \<open>m\<close>; \<open>NonError s\<close> is any other value, kept as
  the text \<^verbatim>\<open>String(value)\<close> gives for it. \<^verbatim>\<open>undefined\<close> is
  \<open>NonError ''undefined''\<close>.
\<close>

datatype thrown = ErrorObj string | NonError string

fun message_of :: "thrown \<Rightarrow> string" where
  "message_of (ErrorObj m) = m"
| "message_of (NonError s) = s"

text \<open>\<^verbatim>\<open>error instanceof Error ? error : new Error(String(error))\<close>\<close>

fun asError :: "thrown \<Rightarrow> thrown" where
  "asError (ErrorObj m) = ErrorObj m"
| "asError (NonError s) = ErrorObj s"

definition undefined_value :: thrown where
  "undefined_value = NonError ''undefined''"

text \<open>
  Strings are lists of characters. \<^verbatim>\<open>String.prototype.includes\<close> is the contiguous
  substring test, \<^verbatim>\<open>startsWith\<close> is \<^const>\<open>prefix\<close>, and
  \<^verbatim>\<open>toLowerCase\<close> is modelled on the ASCII letters.
\<close>

fun str_includes :: "string \<Rightarrow> string \<Rightarrow> bool" where
  "str_includes [] e = (e = [])"
| "str_includes (c # cs) e = (prefix e (c # cs) \<or> str_includes cs e)"

definition lower_char :: "char \<Rightarrow> char" where
  "lower_char c =
     (case map_of (zip ''ABCDEFGHIJKLMNOPQRSTUVWXYZ'' ''abcdefghijklmnopqrstuvwxyz'') c of
        Some l \<Rightarrow> l
      | None \<Rightarrow> c)"

definition toLowerCase :: "string \<Rightarrow> string" where
  "toLowerCase s = map lower_char s"

section \<open>Inference utilities (services/interfaces/ICodingAgent.ts)\<close>

subsection \<open>Messages\<close>

datatype role = System | User | Assistant | Tool

record wire_tool_call =
  wire_id :: string
  wire_name :: string
  wire_arguments :: string

datatype content = Text string | Structured json

record message =
  role :: role
  content :: content
  tool_calls :: "wire_tool_call list option"
  tool_call_id :: "string option"

subsection \<open>estimateTokens and truncateMessages\<close>

text \<open>\<^verbatim>\<open>Math.ceil(text.length / 4)\<close>\<close>

definition estimateTokens :: "string \<Rightarrow> nat" where
  "estimateTokens text = nat \<lceil>real (length text) / 4\<rceil>"

text \<open>
  The loop \<^verbatim>\<open>for (let i = messages.length - 1; i >= 0; i--)\<close>. The counter of
  \<open>truncate_loop\<close> is \<open>i + 1\<close>: \<open>Suc i\<close> runs the body at index \<open>i\<close>, and
  \<open>0\<close> is the exit \<open>i = -1\<close>. \<^verbatim>\<open>result.unshift(msg)\<close> is \<open>msg # result\<close>;
  \<^verbatim>\<open>break\<close> returns the result built so far. The limit is a JavaScript number.
\<close>

fun truncate_loop ::
  "(json \<Rightarrow> string) \<Rightarrow> message list \<Rightarrow> real \<Rightarrow> nat \<Rightarrow> nat \<Rightarrow> message list \<Rightarrow> message list"
where
  "truncate_loop stringify messages maxTokens 0 totalTokens result = result"
| "truncate_loop stringify messages maxTokens (Suc i) totalTokens result =
     (let msg = messages ! i;
          text = (case content msg of Text s \<Rightarrow> s | Structured j \<Rightarrow> stringify j);
          tokens = estimateTokens text
      in if real (totalTokens + tokens) > maxTokens \<and> length result > 0
         then result
         else truncate_loop stringify messages maxTokens i (totalTokens + tokens) (msg # result))"

definition truncateMessages ::
  "(json \<Rightarrow> string) \<Rightarrow> message list \<Rightarrow> real \<Rightarrow> message list"
where
  "truncateMessages stringify messages maxTokens =
     truncate_loop stringify messages maxTokens (length messages) 0 []"

text \<open>A two-message history used to run truncateMessages.\<close>

definition older_message :: message where
  "older_message =
     \<lparr>role = User, content = Text ''hello world'', tool_calls = None, tool_call_id = None\<rparr>"

definition newest_message :: message where
  "newest_message =
     \<lparr>role = Assistant, content = Text ''a long message here'', tool_calls = None,
      tool_call_id = None\<rparr>"

definition stringify_braces :: "json \<Rightarrow> string" where
  "stringify_braces j = ''{}''"

subsection \<open>createStreamIterator\<close>

text \<open>
  The generator reads the response body chunk by chunk. \<open>reads\<close> are the decoded
  chunks in order; after them \<^verbatim>\<open>reader.read()\<close> reports \<^verbatim>\<open>done\<close>, or
  rejects with \<open>read_error\<close>. The result is the list of chunks the generator yields
  and how it ends: \<open>None\<close> when it returns, \<open>Some e\<close> when it throws.
  \<open>parseFrame\<close> is \<^verbatim>\<open>JSON.parse\<close> followed by \<^verbatim>\<open>parseStreamChunk\<close> for the
  provider: \<open>None\<close> when the payload does not parse or maps to no chunk (both are
  skipped by the loop). The characters of a line are the code units below 256, and
  \<^verbatim>\<open>trim\<close> strips those of them that JavaScript counts as white space or as line
  terminators: tab, line feed, vertical tab, form feed, carriage return, space and the
  no-break space U+00A0.
\<close>

definition newline :: char where
  "newline = CHR 0x0A"

definition is_space :: "char \<Rightarrow> bool" where
  "is_space c =
     (c \<in> set [CHR '' '', CHR 0x09, CHR 0x0A, CHR 0x0B, CHR 0x0C, CHR 0x0D, CHR 0xA0])"

definition trim :: "string \<Rightarrow> string" where
  "trim s = rev (dropWhile is_space (rev (dropWhile is_space s)))"

fun split_newline :: "string \<Rightarrow> string list" where
  "split_newline [] = [[]]"
| "split_newline (c # cs) =
     (if c = newline then [] # split_newline cs
      else (c # hd (split_newline cs)) # tl (split_newline cs))"

datatype StreamChunk =
    ContentChunk string
  | ToolCallChunk "wire_tool_call list"
  | CompleteChunk

fun process_lines :: "(string \<Rightarrow> StreamChunk option) \<Rightarrow> string list \<Rightarrow> StreamChunk list \<times> bool" where
  "process_lines parseFrame [] = ([], False)"
| "process_lines parseFrame (line # lines) =
     (if trim line = [] \<or> \<not> prefix ''data:'' line then process_lines parseFrame lines
      else
        (let data = trim (drop 5 line) in
         if data = ''[DONE]'' then ([CompleteChunk], True)
         else
           (case parseFrame data of
              Some chunk \<Rightarrow>
                (let (chunks, returned) = process_lines parseFrame lines
                 in (chunk # chunks, returned))
            | None \<Rightarrow> process_lines parseFrame lines)))"

fun stream_loop ::
  "(string \<Rightarrow> StreamChunk option) \<Rightarrow> string \<Rightarrow> string list \<Rightarrow> thrown option
    \<Rightarrow> StreamChunk list \<times> thrown option"
where
  "stream_loop parseFrame buffer [] read_error = ([], read_error)"
| "stream_loop parseFrame buffer (v # reads) read_error =
     (let lines = split_newline (buffer @ v);
          buffer' = last lines;
          (chunks, returned) = process_lines parseFrame (butlast lines)
      in if returned then (chunks, None)
         else
           (let (chunks', thrown) = stream_loop parseFrame buffer' reads read_error
            in (chunks @ chunks', thrown)))"

definition createStreamIterator ::
  "(string \<Rightarrow> StreamChunk option) \<Rightarrow> string list \<Rightarrow> thrown option
    \<Rightarrow> StreamChunk list \<times> thrown option"
where
  "createStreamIterator parseFrame reads read_error = stream_loop parseFrame [] reads read_error"

text \<open>
  Line-delimited frames: \<open>terminated frames\<close> is the text of the frames, each ended by
  a newline. A frame is unrecognized when the loop yields nothing for it, and it is the
  completion sentinel when its payload is \<^verbatim>\<open>[DONE]\<close>.
\<close>

definition terminated :: "string list \<Rightarrow> string" where
  "terminated frames = concat (map (\<lambda>l. l @ [newline]) frames)"

definition unrecognized :: "(string \<Rightarrow> StreamChunk option) \<Rightarrow> string \<Rightarrow> bool" where
  "unrecognized parseFrame line =
     (newline \<notin> set line \<and>
      (trim line = [] \<or> \<not> prefix ''data:'' line \<or>
       (trim (drop 5 line) \<noteq> ''[DONE]'' \<and> parseFrame (trim (drop 5 line)) = None)))"

definition done_frame :: "string \<Rightarrow> bool" where
  "done_frame line =
     (newline \<notin> set line \<and> trim line \<noteq> [] \<and> prefix ''data:'' line \<and>
      trim (drop 5 line) = ''[DONE]'')"

definition parse_nothing :: "string \<Rightarrow> StreamChunk option" where
  "parse_nothing data = None"

subsection \<open>withRetry of the inference utilities\<close>

text \<open>
  The retry wrapper of this module: the classifier is the option \<^verbatim>\<open>shouldRetry\<close> (by
  default every error is retried) and there is no jitter. \<open>operation n\<close> is the outcome
  of the \<open>n\<close>-th invocation; the result carries the number of invocations and the
  delays slept.
\<close>

record core_retry_options =
  core_maxRetries :: int
  core_baseDelay :: real
  core_maxDelay :: real
  shouldRetry :: "thrown \<Rightarrow> bool"

definition default_core_retry_options :: core_retry_options where
  "default_core_retry_options =
     \<lparr>core_maxRetries = 3, core_baseDelay = 1000, core_maxDelay = 30000,
      shouldRetry = (\<lambda>error. True)\<rparr>"

function withRetry_core_loop ::
  "(nat \<Rightarrow> thrown + 'a) \<Rightarrow> core_retry_options \<Rightarrow> nat \<Rightarrow> thrown
    \<Rightarrow> (thrown + 'a) \<times> nat \<times> real list"
where
  "withRetry_core_loop fn opts attempt lastError =
     (if int attempt < core_maxRetries opts then
        (case fn attempt of
           Inr v \<Rightarrow> (Inr v, 1, [])
         | Inl error \<Rightarrow>
             (let lastError' = asError error in
              if \<not> shouldRetry opts lastError' \<or> int attempt = core_maxRetries opts - 1
              then (Inl lastError', 1, [])
              else
                (let delay = min (core_baseDelay opts * 2 ^ attempt) (core_maxDelay opts);
                     (r, n, slept) = withRetry_core_loop fn opts (Suc attempt) lastError'
                 in (r, Suc n, delay # slept))))
      else (Inl lastError, 0, []))"
  by pat_completeness auto
termination
  by (relation "measure (\<lambda>(fn, opts, attempt, lastError).
        nat (core_maxRetries opts - int attempt))") auto

definition withRetry_core ::
  "(nat \<Rightarrow> thrown + 'a) \<Rightarrow> core_retry_options \<Rightarrow> (thrown + 'a) \<times> nat \<times> real list"
where
  "withRetry_core fn opts = withRetry_core_loop fn opts 0 undefined_value"

section \<open>Operations (operations/AgenticProjectBuilder.ts)\<close>

subsection \<open>Types\<close>

record ToolCall =
  tc_id :: string
  tc_name :: string
  tc_parameters :: json

record ToolDefinition =
  tool_name :: string
  tool_description :: string
  tool_parameters :: json
  tool_execute :: "json \<Rightarrow> thrown + json"

datatype StreamResponse =
    ResponseComplete string
  | ResponseToolCalls string "ToolCall list"
  | ResponseError string

text \<open>
  The callbacks (\<^verbatim>\<open>toolRenderer\<close>, \<^verbatim>\<open>onToolComplete\<close>) are supplied by the caller.
  They are taken to return normally, and their calls are recorded in order; the calls of
  \<^verbatim>\<open>streamCb\<close>, one per content chunk, are not recorded.
\<close>

datatype render_status = Running | Success json | Failed string

datatype ui_event =
    Rendered string render_status json
  | ToolCompleted message

definition MAX_TOOL_ITERATIONS :: nat where
  "MAX_TOOL_ITERATIONS = 50"

definition MAX_OPERATION_TIME_MS :: int where
  "MAX_OPERATION_TIME_MS = 5 * 60 * 1000"

text \<open>
  What the loop reads from outside. \<open>now 0\<close> is the reading of \<^verbatim>\<open>Date.now()\<close> at
  the start of the loop and \<open>now (Suc i)\<close> the reading at the top of iteration \<open>i\<close>.
  \<open>inferStream i msgs\<close> is what \<^verbatim>\<open>inferStream\<close> gives in iteration \<open>i\<close> for the
  history \<open>msgs\<close>: \<open>Inl\<close> when the call rejects, otherwise the chunks of the stream
  and how the stream ends (as createStreamIterator reports it).
\<close>

record runtime =
  JSON_parse :: "string \<Rightarrow> thrown + json"
  JSON_stringify :: "json \<Rightarrow> string"
  now :: "nat \<Rightarrow> int"
  inferStream :: "nat \<Rightarrow> message list \<Rightarrow> thrown + (StreamChunk list \<times> thrown option)"

text \<open>The decimal text of a number, as a template string prints it.\<close>

fun digits :: "nat \<Rightarrow> string" where
  "digits n =
     (if n < 10 then [''0123456789'' ! n]
      else digits (n div 10) @ [''0123456789'' ! (n mod 10)])"

text \<open>\<^verbatim>\<open>error instanceof Error ? error.message : fallback\<close>\<close>

fun message_or :: "string \<Rightarrow> thrown \<Rightarrow> string" where
  "message_or fallback (ErrorObj m) = m"
| "message_or fallback (NonError s) = fallback"

subsection \<open>streamInference\<close>

fun parseToolCalls :: "(string \<Rightarrow> thrown + json) \<Rightarrow> wire_tool_call list \<Rightarrow> thrown + ToolCall list" where
  "parseToolCalls parse [] = Inr []"
| "parseToolCalls parse (toolCall # rawToolCalls) =
     (case parse (wire_arguments toolCall) of
        Inl error \<Rightarrow> Inl error
      | Inr parameters \<Rightarrow>
          (case parseToolCalls parse rawToolCalls of
             Inl error \<Rightarrow> Inl error
           | Inr calls \<Rightarrow>
               Inr (\<lparr>tc_id = wire_id toolCall, tc_name = wire_name toolCall,
                     tc_parameters = parameters\<rparr> # calls)))"

text \<open>The \<^verbatim>\<open>for await\<close> loop over the stream; a throw of parseToolCalls leaves it.\<close>

fun consume_chunks ::
  "(string \<Rightarrow> thrown + json) \<Rightarrow> StreamChunk list \<Rightarrow> string \<Rightarrow> ToolCall list \<Rightarrow> bool
    \<Rightarrow> thrown + (string \<times> ToolCall list \<times> bool)"
where
  "consume_chunks parse [] accumulatedContent toolCalls isComplete =
     Inr (accumulatedContent, toolCalls, isComplete)"
| "consume_chunks parse (chunk # chunks) accumulatedContent toolCalls isComplete =
     (case chunk of
        ContentChunk c \<Rightarrow> consume_chunks parse chunks (accumulatedContent @ c) toolCalls isComplete
      | ToolCallChunk raw \<Rightarrow>
          (case parseToolCalls parse raw of
             Inl error \<Rightarrow> Inl error
           | Inr calls \<Rightarrow> consume_chunks parse chunks accumulatedContent calls isComplete)
      | CompleteChunk \<Rightarrow> consume_chunks parse chunks accumulatedContent toolCalls True)"

definition streamInference ::
  "(string \<Rightarrow> thrown + json) \<Rightarrow> string \<Rightarrow> thrown + (StreamChunk list \<times> thrown option)
    \<Rightarrow> StreamResponse"
where
  "streamInference parse completionSignalName incoming =
     (case incoming of
        Inl error \<Rightarrow> ResponseError (message_or ''Unknown error'' error)
      | Inr (chunks, read_error) \<Rightarrow>
          (case consume_chunks parse chunks [] [] False of
             Inl error \<Rightarrow> ResponseError (message_or ''Unknown error'' error)
           | Inr (accumulatedContent, toolCalls, isComplete) \<Rightarrow>
               (case read_error of
                  Some error \<Rightarrow> ResponseError (message_or ''Unknown error'' error)
                | None \<Rightarrow>
                    if length toolCalls > 0
                    then ResponseToolCalls accumulatedContent toolCalls
                    else if isComplete \<or> str_includes accumulatedContent completionSignalName
                    then ResponseComplete accumulatedContent
                    else ResponseComplete accumulatedContent)))"

subsection \<open>executeToolCalls\<close>

definition error_result :: "string \<Rightarrow> json" where
  "error_result m = JObj [(''error'', JStr m)]"

fun executeToolCalls_loop ::
  "(json \<Rightarrow> string) \<Rightarrow> ToolDefinition list \<Rightarrow> bool \<Rightarrow> ToolCall list \<Rightarrow> json list \<Rightarrow> ui_event list
    \<Rightarrow> json list \<times> ui_event list"
where
  "executeToolCalls_loop stringify availableTools onToolComplete [] results ui = (results, ui)"
| "executeToolCalls_loop stringify availableTools onToolComplete (toolCall # toolCalls) results ui =
     (case find (\<lambda>t. tool_name t = tc_name toolCall) availableTools of
        None \<Rightarrow>
          executeToolCalls_loop stringify availableTools onToolComplete toolCalls
            (results @ [error_result (''Tool not found: '' @ tc_name toolCall)]) ui
      | Some tool \<Rightarrow>
          (case tool_execute tool (tc_parameters toolCall) of
             Inr result \<Rightarrow>
               executeToolCalls_loop stringify availableTools onToolComplete toolCalls
                 (results @ [result])
                 (ui @ [Rendered (tc_name toolCall) Running (tc_parameters toolCall),
                        Rendered (tc_name toolCall) (Success result) (tc_parameters toolCall)]
                     @ (if onToolComplete
                        then [ToolCompleted \<lparr>role = Tool, content = Text (stringify result),
                                tool_calls = None, tool_call_id = Some (tc_id toolCall)\<rparr>]
                        else []))
           | Inl error \<Rightarrow>
               executeToolCalls_loop stringify availableTools onToolComplete toolCalls
                 (results @ [error_result (message_or ''Tool execution failed'' error)])
                 (ui @ [Rendered (tc_name toolCall) Running (tc_parameters toolCall),
                        Rendered (tc_name toolCall) (Failed (message_or ''Unknown error'' error))
                          (tc_parameters toolCall)])))"

definition executeToolCalls ::
  "(json \<Rightarrow> string) \<Rightarrow> ToolCall list \<Rightarrow> ToolDefinition list \<Rightarrow> bool \<Rightarrow> json list \<times> ui_event list"
where
  "executeToolCalls stringify toolCalls availableTools onToolComplete =
     executeToolCalls_loop stringify availableTools onToolComplete toolCalls [] []"

subsection \<open>runInferenceWithTools\<close>

definition assistant_message :: "(json \<Rightarrow> string) \<Rightarrow> string \<Rightarrow> ToolCall list \<Rightarrow> message" where
  "assistant_message stringify content' toolCalls =
     \<lparr>role = Assistant, content = Text content',
      tool_calls = Some (map (\<lambda>tc. \<lparr>wire_id = tc_id tc, wire_name = tc_name tc,
                                     wire_arguments = stringify (tc_parameters tc)\<rparr>) toolCalls),
      tool_call_id = None\<rparr>"

text \<open>
  \<^verbatim>\<open>toolResults.map((result, idx) => ...)\<close>. Reading \<^verbatim>\<open>response.toolCalls[idx].id\<close>
  beyond the end of the batch is a TypeError.
\<close>

fun tool_messages :: "(json \<Rightarrow> string) \<Rightarrow> ToolCall list \<Rightarrow> json list \<Rightarrow> nat \<Rightarrow> thrown + message list" where
  "tool_messages stringify toolCalls [] idx = Inr []"
| "tool_messages stringify toolCalls (result # toolResults) idx =
     (if idx < length toolCalls then
        (case tool_messages stringify toolCalls toolResults (Suc idx) of
           Inl error \<Rightarrow> Inl error
         | Inr ms \<Rightarrow>
             Inr (\<lparr>role = Tool,
                   content = Text (case result of JStr s \<Rightarrow> s | _ \<Rightarrow> stringify result),
                   tool_calls = None,
                   tool_call_id = Some (tc_id (toolCalls ! idx))\<rparr> # ms))
      else Inl (ErrorObj ''Cannot read properties of undefined (reading id)''))"

text \<open>
  The result of the loop carries, beside the outcome, one entry per call of
  streamInference (the history it was given and its response) and the recorded
  callback calls. \<open>iteration\<close> counts the completed tool-call rounds.
\<close>

type_synonym turn = "message list \<times> StreamResponse"

function runInferenceWithTools_loop ::
  "runtime \<Rightarrow> ToolDefinition list \<Rightarrow> string \<Rightarrow> bool \<Rightarrow> nat \<Rightarrow> message list
    \<Rightarrow> (thrown + string) \<times> turn list \<times> ui_event list"
where
  "runInferenceWithTools_loop rt tools completionSignalName onToolComplete iteration currentMessages =
     (if iteration < MAX_TOOL_ITERATIONS then
        (if now rt (Suc iteration) - now rt 0 > MAX_OPERATION_TIME_MS
         then (Inl (ErrorObj ''Operation timeout exceeded''), [], [])
         else
           (let response = streamInference (JSON_parse rt) completionSignalName
                             (inferStream rt iteration currentMessages)
            in case response of
                 ResponseComplete content' \<Rightarrow> (Inr content', [(currentMessages, response)], [])
               | ResponseToolCalls content' toolCalls \<Rightarrow>
                   (let (toolResults, ui) =
                          executeToolCalls (JSON_stringify rt) toolCalls tools onToolComplete
                    in case tool_messages (JSON_stringify rt) toolCalls toolResults 0 of
                         Inl error \<Rightarrow> (Inl error, [(currentMessages, response)], ui)
                       | Inr toolMessages \<Rightarrow>
                           (let currentMessages' =
                                  currentMessages
                                  @ [assistant_message (JSON_stringify rt) content' toolCalls]
                                  @ toolMessages;
                                (r, turns, ui') =
                                  runInferenceWithTools_loop rt tools completionSignalName
                                    onToolComplete (Suc iteration) currentMessages'
                            in (r, (currentMessages, response) # turns, ui @ ui')))
               | ResponseError err \<Rightarrow>
                   (Inl (ErrorObj (''Inference error: '' @ err)), [(currentMessages, response)], [])))
      else (Inl (ErrorObj (''Max tool iterations ('' @ digits MAX_TOOL_ITERATIONS @ '') exceeded'')),
            [], []))"
  by pat_completeness auto
termination
  by (relation "measure (\<lambda>(rt, tools, sig, cb, iteration, msgs). MAX_TOOL_ITERATIONS - iteration)")
     auto

definition runInferenceWithTools ::
  "runtime \<Rightarrow> message list \<Rightarrow> ToolDefinition list \<Rightarrow> string \<Rightarrow> bool
    \<Rightarrow> (thrown + string) \<times> turn list \<times> ui_event list"
where
  "runInferenceWithTools rt messages tools completionSignalName onToolComplete =
     runInferenceWithTools_loop rt tools completionSignalName onToolComplete 0 messages"

subsection \<open>withRetry\<close>

text \<open>
  The operation is impure: \<open>operation n\<close> is the outcome of its \<open>n\<close>-th invocation
  (counted from 0), \<open>Inl\<close> a rejection and \<open>Inr\<close> the value. \<open>random n\<close> is what
  \<^verbatim>\<open>Math.random()\<close> returns in attempt \<open>n\<close>. The result carries, beside the
  outcome, the number of invocations of the operation and the delays slept.
\<close>

record retry_options =
  maxRetries :: int
  baseDelay :: real
  maxDelay :: real
  retryableErrors :: "string list"

definition default_retry_options :: retry_options where
  "default_retry_options =
     \<lparr>maxRetries = 3, baseDelay = 1000, maxDelay = 30000,
      retryableErrors = [''rate_limit'', ''timeout'', ''network_error'']\<rparr>"

text \<open>
  \<^verbatim>\<open>retryableErrors.some(e => lastError.message.toLowerCase().includes(e))\<close>
\<close>

definition isRetryable :: "string list \<Rightarrow> thrown \<Rightarrow> bool" where
  "isRetryable retryable lastError =
     list_ex (\<lambda>e. str_includes (toLowerCase (message_of lastError)) e) retryable"

function withRetry_loop ::
  "(nat \<Rightarrow> thrown + 'a) \<Rightarrow> retry_options \<Rightarrow> (nat \<Rightarrow> real) \<Rightarrow> nat \<Rightarrow> thrown
    \<Rightarrow> (thrown + 'a) \<times> nat \<times> real list"
where
  "withRetry_loop operation opts random attempt lastError =
     (if int attempt < maxRetries opts then
        (case operation attempt of
           Inr v \<Rightarrow> (Inr v, 1, [])
         | Inl error \<Rightarrow>
             (let lastError' = asError error in
              if \<not> isRetryable (retryableErrors opts) lastError'
                 \<or> int attempt = maxRetries opts - 1
              then (Inl lastError', 1, [])
              else
                (let delay = min (baseDelay opts * 2 ^ attempt) (maxDelay opts);
                     jitter = random attempt * 1000;
                     (r, n, slept) = withRetry_loop operation opts random (Suc attempt) lastError'
                 in (r, Suc n, (delay + jitter) # slept))))
      else (Inl lastError, 0, []))"
  by pat_completeness auto
termination
  by (relation "measure (\<lambda>(operation, opts, random, attempt, lastError).
        nat (maxRetries opts - int attempt))") auto

definition withRetry ::
  "(nat \<Rightarrow> thrown + 'a) \<Rightarrow> retry_options \<Rightarrow> (nat \<Rightarrow> real)
    \<Rightarrow> (thrown + 'a) \<times> nat \<times> real list"
where
  "withRetry operation opts random = withRetry_loop operation opts random 0 undefined_value"

text \<open>Operations used to run withRetry.\<close>

definition flaky_operation :: "nat \<Rightarrow> thrown + string" where
  "flaky_operation n =
     (if n = 0 then Inl (ErrorObj ''request timeout'')
      else if n = 1 then Inl (NonError ''rate_limit hit'')
      else Inr ''ok'')"

definition denied_operation :: "nat \<Rightarrow> thrown + string" where
  "denied_operation n = Inl (ErrorObj ''permission denied'')"

definition offline_operation :: "nat \<Rightarrow> thrown + string" where
  "offline_operation n =
     (if n = 2 then Inl (ErrorObj ''network_error: still down'')
      else Inl (ErrorObj ''network_error''))"

definition boom_operation :: "nat \<Rightarrow> thrown + string" where
  "boom_operation n = Inl (NonError ''boom'')"

definition no_jitter :: "nat \<Rightarrow> real" where
  "no_jitter n = 0"

text \<open>
  What the loop is compared with. \<open>tool_result\<close> is the result that one round of the
  \<^verbatim>\<open>for\<close> loop of executeToolCalls pushes for a call, \<open>tool_reply\<close> the tool
  message built for a call and a result, and \<open>next_history\<close> the history that follows a
  batch: the old history, the assistant message, and the reply to each call with its own
  result, in the order of the calls. \<open>traced\<close> holds of the turns of a run that starts
  in iteration \<open>k\<close> when every recorded response is the one streamInference gives for
  the recorded history in that iteration, and every history but the first is the
  \<open>next_history\<close> of the batch before it.
\<close>

definition tool_result :: "ToolDefinition list \<Rightarrow> ToolCall \<Rightarrow> json" where
  "tool_result availableTools toolCall =
     (case find (\<lambda>t. tool_name t = tc_name toolCall) availableTools of
        None \<Rightarrow> error_result (''Tool not found: '' @ tc_name toolCall)
      | Some tool \<Rightarrow>
          (case tool_execute tool (tc_parameters toolCall) of
             Inr result \<Rightarrow> result
           | Inl error \<Rightarrow> error_result (message_or ''Tool execution failed'' error)))"

definition tool_reply :: "(json \<Rightarrow> string) \<Rightarrow> ToolCall \<Rightarrow> json \<Rightarrow> message" where
  "tool_reply stringify toolCall result =
     \<lparr>role = Tool,
      content = Text (case result of JStr s \<Rightarrow> s | _ \<Rightarrow> stringify result),
      tool_calls = None,
      tool_call_id = Some (tc_id toolCall)\<rparr>"

definition next_history ::
  "(json \<Rightarrow> string) \<Rightarrow> ToolDefinition list \<Rightarrow> message list \<Rightarrow> string \<Rightarrow> ToolCall list
    \<Rightarrow> message list"
where
  "next_history stringify availableTools msgs content' toolCalls =
     msgs @ [assistant_message stringify content' toolCalls]
          @ map (\<lambda>tc. tool_reply stringify tc (tool_result availableTools tc)) toolCalls"

fun traced :: "runtime \<Rightarrow> ToolDefinition list \<Rightarrow> string \<Rightarrow> nat \<Rightarrow> turn list \<Rightarrow> bool" where
  "traced rt availableTools sig k [] = True"
| "traced rt availableTools sig k [(msgs, response)] =
     (response = streamInference (JSON_parse rt) sig (inferStream rt k msgs))"
| "traced rt availableTools sig k ((msgs, response) # (msgs', response') # turns) =
     (response = streamInference (JSON_parse rt) sig (inferStream rt k msgs) \<and>
      (case response of
         ResponseToolCalls content' toolCalls \<Rightarrow>
           msgs' = next_history (JSON_stringify rt) availableTools msgs content' toolCalls
       | ResponseComplete content' \<Rightarrow> False
       | ResponseError err \<Rightarrow> False) \<and>
      traced rt availableTools sig (Suc k) ((msgs', response') # turns))"

text \<open>Tools, a batch and two runtimes used to run the loop.\<close>

definition echo_tool :: ToolDefinition where
  "echo_tool =
     \<lparr>tool_name = ''echo'', tool_description = ''returns its parameters'',
      tool_parameters = JObj [], tool_execute = (\<lambda>parameters. Inr parameters)\<rparr>"

definition failing_tool :: ToolDefinition where
  "failing_tool =
     \<lparr>tool_name = ''write_file'', tool_description = ''always fails'',
      tool_parameters = JObj [], tool_execute = (\<lambda>parameters. Inl (ErrorObj ''disk full''))\<rparr>"

definition example_batch :: "ToolCall list" where
  "example_batch =
     [\<lparr>tc_id = ''call_1'', tc_name = ''echo'', tc_parameters = JStr ''hi''\<rparr>,
      \<lparr>tc_id = ''call_2'', tc_name = ''missing_tool'', tc_parameters = JNull\<rparr>,
      \<lparr>tc_id = ''call_3'', tc_name = ''write_file'', tc_parameters = JNull\<rparr>]"

definition missing_call :: ToolCall where
  "missing_call = \<lparr>tc_id = ''call_1'', tc_name = ''missing_tool'', tc_parameters = JNull\<rparr>"

definition looping_runtime :: runtime where
  "looping_runtime =
     \<lparr>JSON_parse = (\<lambda>text. Inr JNull),
      JSON_stringify = stringify_braces,
      now = (\<lambda>n. 1000 * int n),
      inferStream = (\<lambda>i msgs.
        Inr ([ToolCallChunk [\<lparr>wire_id = ''call_1'', wire_name = ''missing_tool'',
                               wire_arguments = ''{}''\<rparr>]], None))\<rparr>"

definition sentinel_reads :: "string list" where
  "sentinel_reads = [''data: {}'' @ [newline] @ ''da'', ''ta: [DONE]'' @ [newline]]"

definition unterminated_reads :: "string list" where
  "unterminated_reads = [''data: {}'' @ [newline] @ ''da'', ''ta: [DONE]'']"

definition sentinel_runtime :: runtime where
  "sentinel_runtime =
     \<lparr>JSON_parse = (\<lambda>text. Inr JNull),
      JSON_stringify = stringify_braces,
      now = (\<lambda>n. 1000 * int n),
      inferStream = (\<lambda>i msgs. Inr (createStreamIterator parse_nothing sentinel_reads None))\<rparr>"

section \<open>The orchestrator (core/AgentCore.ts)\<close>

subsection \<open>Types\<close>

datatype AgentMode = AGENTIC | PHASIC | SIMPLE

datatype AgentPhase = ANALYSIS | SETUP | IMPLEMENTATION | REVIEW | DEPLOYMENT

datatype GenerationStatus = INITIALIZING | PROCESSING | WAITING | COMPLETED | FAILED | TERMINATED

text \<open>
  The enumerations are those of behaviors/phasic.ts. Of the context, the file states and
  the metadata (start time, model configuration, template id) are left out: the
  orchestrator only stores them.
\<close>

record GenerationContext =
  sessionId :: string
  userId :: string
  projectId :: string
  status :: GenerationStatus
  mode :: AgentMode
  phase :: AgentPhase
  iteration :: nat
  prompt :: string
  blueprint :: "json option"
  conversationHistory :: "(role \<times> string) list"

record ReviewAnalysis =
  issues :: "json list"
  suggestions :: "string list"
  autoFixConfidence :: real

datatype phase_status = Started | Completed | PhaseFailed string

text \<open>
  The notification events that the modelled methods emit, by type tag. The timestamps
  of the payloads (\<^verbatim>\<open>Date.now()\<close>) and the stack of an error event are left out.
\<close>

datatype event =
    BlueprintEvent "json option"
  | PhaseEvent AgentPhase phase_status
  | ReviewPassed
  | ReviewIssuesFound "json list" "string list"
  | StreamEvent json
  | CompleteEvent nat
  | ErrorEvent "string option"
  | TerminatedEvent "string option"

record AgentSession =
  session_id :: string
  session_context :: GenerationContext
  isTerminated :: bool

record SessionStatus =
  status_sessionId :: string
  status_status :: GenerationStatus
  status_phase :: AgentPhase
  status_mode :: AgentMode
  status_iteration :: nat
  progress :: real
  status_isTerminated :: bool

record ToolResult =
  success :: bool
  data :: "json option"
  result_error :: "string option"
  executionTime :: int

record tool_execution =
  log_sessionId :: string
  toolName :: string
  duration :: int
  log_success :: bool
  log_error :: "string option"
  resultSize :: "nat option"

text \<open>
  How a tool of the toolkit settles against the timeout race: it returns, it rejects, or
  it is still pending when the timer of \<^verbatim>\<open>TOOL_TIMEOUT_MS\<close> fires.
\<close>

datatype tool_outcome = Returned json | Rejected thrown | Pending

text \<open>
  The behaviours are not part of the orchestrator. Each call gets the context, may change
  it, and returns or throws; implementProject also hands chunks to the stream callback.
\<close>

record BaseBehavior =
  generateBlueprint :: "GenerationContext \<Rightarrow> (thrown + json) \<times> GenerationContext"
  initializeProject :: "GenerationContext \<Rightarrow> thrown option \<times> GenerationContext"
  implementProject :: "GenerationContext \<Rightarrow> json list \<times> thrown option \<times> GenerationContext"
  reviewProject :: "GenerationContext \<Rightarrow> (thrown + ReviewAnalysis) \<times> GenerationContext"
  prepareDeployment :: "GenerationContext \<Rightarrow> thrown option \<times> GenerationContext"
  applyFixes :: "GenerationContext \<Rightarrow> json list \<Rightarrow> thrown option \<times> GenerationContext"

text \<open>
  The state of the orchestrator and of what it talks to. Session objects live in
  \<open>objects\<close>, addressed by reference: \<open>activeSessions\<close> maps a session id to the
  reference of its object, and a running processSession keeps the reference of the
  session it was started with. \<open>emitted\<close> is what the emitter has delivered, in order;
  \<open>timers\<close> are the callbacks scheduled with \<^verbatim>\<open>setTimeout\<close> that have not fired.

  The session store (IStateManager) and the analytics collector (IAnalysisManager) are
  interfaces whose implementations are not in the source: \<open>stored_contexts\<close> holds
  what createSession and updateSession wrote, \<open>stored_statuses\<close> what
  updateSessionStatus wrote, and \<open>store_getSessionStatus\<close> is what the store answers
  for a session that is not live. \<open>logToolExecution_rejects\<close> tells for which records
  the analytics call rejects; the accepted records are kept in \<open>tool_log\<close>.
  \<open>toolkit\<close> holds the registered tools of the module that executeToolCall imports;
  the import is taken to succeed.
\<close>

record AgentCore =
  activeSessions :: "string \<rightharpoonup> nat"
  objects :: "nat \<Rightarrow> AgentSession"
  allocated :: nat
  behaviors :: "AgentMode \<rightharpoonup> BaseBehavior"
  toolkit :: "string \<rightharpoonup> (json \<Rightarrow> GenerationContext \<Rightarrow> tool_outcome)"
  emitted :: "(string \<times> event) list"
  timers :: "(string \<times> event) list"
  stored_contexts :: "string \<rightharpoonup> GenerationContext"
  stored_statuses :: "string \<rightharpoonup> GenerationStatus \<times> string option"
  store_getSessionStatus :: "string \<Rightarrow> SessionStatus option"
  logToolExecution_rejects :: "tool_execution \<Rightarrow> thrown option"
  tool_log :: "tool_execution list"

definition COMPLETION_THRESHOLD :: real where
  "COMPLETION_THRESHOLD = 0.95"

subsection \<open>Collaborators\<close>

text \<open>
  Modelled from the spec: the session store (IStateManager) is an interface whose
  implementation is not in the source. The spec has it as an overwrite-by-key store in
  which a session only touches its own key: createSession and updateSession write the
  context under its session id, updateSessionStatus writes the status and the
  termination reason under the id. The writes are taken to succeed, and so is the
  delivery of an event by the emitter.
\<close>

definition emit :: "AgentCore \<Rightarrow> string \<Rightarrow> event \<Rightarrow> AgentCore" where
  "emit core sid ev = core\<lparr>emitted := emitted core @ [(sid, ev)]\<rparr>"

definition updateSession :: "AgentCore \<Rightarrow> GenerationContext \<Rightarrow> AgentCore" where
  "updateSession core ctx =
     core\<lparr>stored_contexts := (stored_contexts core)(sessionId ctx \<mapsto> ctx)\<rparr>"

definition createSession :: "AgentCore \<Rightarrow> GenerationContext \<Rightarrow> AgentCore" where
  "createSession core ctx =
     core\<lparr>stored_contexts := (stored_contexts core)(sessionId ctx \<mapsto> ctx)\<rparr>"

definition updateSessionStatus ::
  "AgentCore \<Rightarrow> string \<Rightarrow> GenerationStatus \<Rightarrow> string option \<Rightarrow> AgentCore"
where
  "updateSessionStatus core sid st terminationReason =
     core\<lparr>stored_statuses := (stored_statuses core)(sid \<mapsto> (st, terminationReason))\<rparr>"

subsection \<open>AgentSession\<close>

definition the_context :: "AgentCore \<Rightarrow> nat \<Rightarrow> GenerationContext" where
  "the_context core r = session_context (objects core r)"

definition set_context :: "AgentCore \<Rightarrow> nat \<Rightarrow> GenerationContext \<Rightarrow> AgentCore" where
  "set_context core r ctx =
     core\<lparr>objects := (objects core)(r := (objects core r)\<lparr>session_context := ctx\<rparr>)\<rparr>"

text \<open>
  \<^verbatim>\<open>stream\<close> schedules the emission with \<^verbatim>\<open>setTimeout\<close>; the callback emits when
  the timer fires (\<open>fire_timer\<close>), without looking at the flag again.
\<close>

definition stream :: "AgentCore \<Rightarrow> nat \<Rightarrow> json \<Rightarrow> AgentCore" where
  "stream core r chunk =
     (if isTerminated (objects core r) then core
      else core\<lparr>timers := timers core @ [(session_id (objects core r), StreamEvent chunk)]\<rparr>)"

definition fire_timer :: "AgentCore \<Rightarrow> AgentCore" where
  "fire_timer core =
     (case timers core of
        [] \<Rightarrow> core
      | (sid, ev) # pending \<Rightarrow> emit (core\<lparr>timers := pending\<rparr>) sid ev)"

definition complete :: "AgentCore \<Rightarrow> nat \<Rightarrow> AgentCore" where
  "complete core r =
     (if isTerminated (objects core r) then core
      else
        (let core' = set_context core r ((the_context core r)\<lparr>status := COMPLETED\<rparr>)
         in emit core' (session_id (objects core' r))
              (CompleteEvent (iteration (the_context core' r)))))"

text \<open>\<^verbatim>\<open>error.message\<close> of a value that is not an Error is \<^verbatim>\<open>undefined\<close>.\<close>

definition fail :: "AgentCore \<Rightarrow> nat \<Rightarrow> thrown \<Rightarrow> AgentCore" where
  "fail core r error =
     (let core' = set_context core r ((the_context core r)\<lparr>status := FAILED\<rparr>)
      in emit core' (session_id (objects core' r))
           (ErrorEvent (case error of ErrorObj m \<Rightarrow> Some m | NonError v \<Rightarrow> None)))"

definition terminate :: "AgentCore \<Rightarrow> nat \<Rightarrow> string option \<Rightarrow> AgentCore" where
  "terminate core r reason =
     (let core' = core\<lparr>objects := (objects core)(r := (objects core r)\<lparr>isTerminated := True\<rparr>)\<rparr>
      in emit core' (session_id (objects core' r)) (TerminatedEvent reason))"

definition phaseWeights :: "AgentPhase \<Rightarrow> real" where
  "phaseWeights p =
     (case p of ANALYSIS \<Rightarrow> 0.1 | SETUP \<Rightarrow> 0.2 | IMPLEMENTATION \<Rightarrow> 0.5 | REVIEW \<Rightarrow> 0.1
      | DEPLOYMENT \<Rightarrow> 0.1)"

text \<open>\<^verbatim>\<open>Object.values(AgentPhase)\<close>, in the order of the declaration.\<close>

definition phases :: "AgentPhase list" where
  "phases = [ANALYSIS, SETUP, IMPLEMENTATION, REVIEW, DEPLOYMENT]"

fun indexOf :: "'a list \<Rightarrow> 'a \<Rightarrow> int" where
  "indexOf [] x = -1"
| "indexOf (y # ys) x = (if y = x then 0 else (let i = indexOf ys x in if i < 0 then -1 else i + 1))"

text \<open>\<^verbatim>\<open>slice(0, end)\<close>; a negative end counts from the end of the array.\<close>

definition slice0 :: "'a list \<Rightarrow> int \<Rightarrow> 'a list" where
  "slice0 xs stop =
     (if stop < 0 then take (nat (int (length xs) + stop)) xs else take (nat stop) xs)"

text \<open>The numbers are JavaScript doubles; they are modelled as reals.\<close>

definition calculateProgress :: "GenerationContext \<Rightarrow> real" where
  "calculateProgress ctx =
     (let currentPhaseIndex = indexOf phases (phase ctx);
          completedPhaseWeight =
            foldl (\<lambda>sum p. sum + phaseWeights p) 0 (slice0 phases currentPhaseIndex)
      in min 0.99 completedPhaseWeight)"

definition getStatus :: "AgentSession \<Rightarrow> SessionStatus" where
  "getStatus session =
     \<lparr>status_sessionId = session_id session,
      status_status = status (session_context session),
      status_phase = phase (session_context session),
      status_mode = mode (session_context session),
      status_iteration = iteration (session_context session),
      progress = calculateProgress (session_context session),
      status_isTerminated = isTerminated session\<rparr>"

subsection \<open>AgentCore\<close>

text \<open>
  A phase body and runPhase take the state and return the thrown value, if any, with the
  new state. \<open>r\<close> is the reference of the session object.
\<close>

type_synonym step = "AgentCore \<Rightarrow> thrown option \<times> AgentCore"

definition runPhase :: "nat \<Rightarrow> AgentPhase \<Rightarrow> step \<Rightarrow> step" where
  "runPhase r p phaseFn core =
     (let core1 = set_context core r ((the_context core r)\<lparr>phase := p, status := PROCESSING\<rparr>);
          core2 = updateSession core1 (the_context core1 r);
          core3 = emit core2 (session_id (objects core2 r)) (PhaseEvent p Started)
      in case phaseFn core3 of
           (None, core4) \<Rightarrow>
             (None, emit core4 (session_id (objects core4 r)) (PhaseEvent p Completed))
         | (Some error, core4) \<Rightarrow>
             (Some error,
              emit core4 (session_id (objects core4 r))
                (PhaseEvent p (PhaseFailed (message_or ''Unknown error'' error)))))"

definition handlePostReview :: "nat \<Rightarrow> ReviewAnalysis \<Rightarrow> step" where
  "handlePostReview r analysis core =
     (if length (issues analysis) = 0
      then (None, emit core (session_id (objects core r)) ReviewPassed)
      else
        (let core1 = emit core (session_id (objects core r))
                       (ReviewIssuesFound (issues analysis) (suggestions analysis))
         in if autoFixConfidence analysis > COMPLETION_THRESHOLD
            then
              (case behaviors core1 (mode (the_context core1 r)) of
                 None \<Rightarrow> (None, core1)
               | Some behavior \<Rightarrow>
                   (let (thrown, ctx) = applyFixes behavior (the_context core1 r) (issues analysis)
                    in (thrown, set_context core1 r ctx)))
            else (None, core1)))"

definition analysis_body :: "BaseBehavior \<Rightarrow> nat \<Rightarrow> step" where
  "analysis_body behavior r core =
     (case generateBlueprint behavior (the_context core r) of
        (Inl error, ctx) \<Rightarrow> (Some error, set_context core r ctx)
      | (Inr plan, ctx) \<Rightarrow>
          (let core1 = set_context core r (ctx\<lparr>blueprint := Some plan\<rparr>)
           in (None, emit core1 (session_id (objects core1 r))
                       (BlueprintEvent (blueprint (the_context core1 r))))))"

definition setup_body :: "BaseBehavior \<Rightarrow> nat \<Rightarrow> step" where
  "setup_body behavior r core =
     (let (thrown, ctx) = initializeProject behavior (the_context core r)
      in (thrown, set_context core r ctx))"

definition implementation_body :: "BaseBehavior \<Rightarrow> nat \<Rightarrow> step" where
  "implementation_body behavior r core =
     (let (chunks, thrown, ctx) = implementProject behavior (the_context core r);
          core1 = foldl (\<lambda>k chunk. stream k r chunk) core chunks
      in (thrown, set_context core1 r ctx))"

definition review_body :: "BaseBehavior \<Rightarrow> nat \<Rightarrow> step" where
  "review_body behavior r core =
     (case reviewProject behavior (the_context core r) of
        (Inl error, ctx) \<Rightarrow> (Some error, set_context core r ctx)
      | (Inr analysis, ctx) \<Rightarrow> handlePostReview r analysis (set_context core r ctx))"

definition deployment_body :: "BaseBehavior \<Rightarrow> nat \<Rightarrow> step" where
  "deployment_body behavior r core =
     (let (thrown, ctx) = prepareDeployment behavior (the_context core r)
      in (thrown, set_context core r ctx))"

text \<open>Sequencing inside the \<^verbatim>\<open>try\<close> block: a throw skips what follows.\<close>

definition and_then :: "thrown option \<times> AgentCore \<Rightarrow> step \<Rightarrow> thrown option \<times> AgentCore" where
  "and_then x f = (case x of (None, core) \<Rightarrow> f core | (Some error, core) \<Rightarrow> (Some error, core))"

definition mode_text :: "AgentMode \<Rightarrow> string" where
  "mode_text m = (case m of AGENTIC \<Rightarrow> ''agentic'' | PHASIC \<Rightarrow> ''phasic'' | SIMPLE \<Rightarrow> ''simple'')"

definition run_phases :: "BaseBehavior \<Rightarrow> nat \<Rightarrow> step" where
  "run_phases behavior r core =
     and_then (and_then (and_then (and_then
       (runPhase r ANALYSIS (analysis_body behavior r) core)
       (runPhase r SETUP (setup_body behavior r)))
       (runPhase r IMPLEMENTATION (implementation_body behavior r)))
       (runPhase r REVIEW (review_body behavior r)))
       (runPhase r DEPLOYMENT (deployment_body behavior r))"

definition processSession :: "nat \<Rightarrow> step" where
  "processSession r core =
     (case behaviors core (mode (the_context core r)) of
        None \<Rightarrow> (Some (ErrorObj (''Unknown agent mode: '' @ mode_text (mode (the_context core r)))), core)
      | Some behavior \<Rightarrow>
          (case run_phases behavior r core of
             (None, core1) \<Rightarrow>
               (let core2 = set_context core1 r ((the_context core1 r)\<lparr>status := COMPLETED\<rparr>);
                    core3 = updateSession core2 (the_context core2 r)
                in (None, complete core3 r))
           | (Some error, core1) \<Rightarrow>
               (let core2 = set_context core1 r ((the_context core1 r)\<lparr>status := FAILED\<rparr>);
                    core3 = updateSession core2 (the_context core2 r)
                in (Some error, core3))))"

text \<open>
  \<^verbatim>\<open>this.processSession(session).catch(error => session.fail(error))\<close>, as
  initializeSession and recoverSession start it.
\<close>

definition process_in_background :: "nat \<Rightarrow> AgentCore \<Rightarrow> AgentCore" where
  "process_in_background r core =
     (case processSession r core of
        (None, core1) \<Rightarrow> core1
      | (Some error, core1) \<Rightarrow> fail core1 r error)"

text \<open>
  initializeSession up to the start of the processing. \<open>sid\<close> is what
  \<^verbatim>\<open>nanoid()\<close> returns. It gives the reference of the new session.
\<close>

definition initializeSession ::
  "AgentCore \<Rightarrow> string \<Rightarrow> string \<Rightarrow> string \<Rightarrow> string \<Rightarrow> AgentMode option \<Rightarrow> nat \<times> AgentCore"
where
  "initializeSession core sid uid pid initialPrompt requested_mode =
     (let ctx = \<lparr>sessionId = sid, userId = uid, projectId = pid, status = INITIALIZING,
                 mode = (case requested_mode of Some m \<Rightarrow> m | None \<Rightarrow> AGENTIC),
                 phase = ANALYSIS, iteration = 0, prompt = initialPrompt, blueprint = None,
                 conversationHistory = []\<rparr>;
          core1 = createSession core ctx;
          r = allocated core1;
          session = \<lparr>session_id = sid, session_context = ctx, isTerminated = False\<rparr>
      in (r, core1\<lparr>objects := (objects core1)(r := session), allocated := Suc r,
                    activeSessions := (activeSessions core1)(sid \<mapsto> r)\<rparr>))"

text \<open>
  Modelled from the spec: the toolkit module that executeToolCall imports is not in the
  source. Its registered tools are the parameter \<open>toolkit\<close>, and it is taken to be an
  ordinary object whose own properties are these tools, so that
  \<^verbatim>\<open>toolkit[toolCall.name]\<close> also finds the properties that every object inherits;
  such a value is truthy and has no \<^verbatim>\<open>execute\<close> method.
\<close>

definition object_prototype_names :: "string list" where
  "object_prototype_names =
     [''constructor'', ''hasOwnProperty'', ''isPrototypeOf'', ''propertyIsEnumerable'',
      ''toLocaleString'', ''toString'', ''valueOf'', ''__defineGetter__'',
      ''__defineSetter__'', ''__lookupGetter__'', ''__lookupSetter__'', ''__proto__'']"

datatype toolkit_property =
    OwnTool "json \<Rightarrow> GenerationContext \<Rightarrow> tool_outcome"
  | InheritedProperty
  | NoProperty

definition toolkit_lookup :: "AgentCore \<Rightarrow> string \<Rightarrow> toolkit_property" where
  "toolkit_lookup core name =
     (case toolkit core name of
        Some tool \<Rightarrow> OwnTool tool
      | None \<Rightarrow> if name \<in> set object_prototype_names then InheritedProperty else NoProperty)"

text \<open>
  executeToolCall. \<open>startTime\<close> is the reading of \<^verbatim>\<open>Date.now()\<close> before the
  \<^verbatim>\<open>try\<close> block, \<open>tryTime\<close> the reading after the tool has returned and
  \<open>catchTime\<close> the reading in the \<^verbatim>\<open>catch\<close> block. The result is \<open>Inl\<close> when the
  call throws. \<open>tool_failed\<close> is the \<^verbatim>\<open>catch\<close> block.
\<close>

definition tool_failed ::
  "AgentCore \<Rightarrow> int \<Rightarrow> string \<Rightarrow> ToolCall \<Rightarrow> thrown \<Rightarrow> (thrown + ToolResult) \<times> AgentCore"
where
  "tool_failed core d sid toolCall error =
     (let entry = \<lparr>log_sessionId = sid, toolName = tc_name toolCall, duration = d,
                   log_success = False, log_error = Some (message_or ''Unknown error'' error),
                   resultSize = None\<rparr>
      in case logToolExecution_rejects core entry of
           Some rejection \<Rightarrow> (Inl rejection, core)
         | None \<Rightarrow>
             (Inr \<lparr>success = False, data = None,
                   result_error = Some (message_or ''Tool execution failed'' error),
                   executionTime = d\<rparr>,
              core\<lparr>tool_log := tool_log core @ [entry]\<rparr>))"

definition executeToolCall ::
  "(json \<Rightarrow> string) \<Rightarrow> AgentCore \<Rightarrow> int \<Rightarrow> int \<Rightarrow> int \<Rightarrow> string \<Rightarrow> ToolCall
    \<Rightarrow> (thrown + ToolResult) \<times> AgentCore"
where
  "executeToolCall stringify core startTime tryTime catchTime sid toolCall =
     (case activeSessions core sid of
        None \<Rightarrow> (Inl (ErrorObj (''Session not found: '' @ sid)), core)
      | Some r \<Rightarrow>
          (case toolkit_lookup core (tc_name toolCall) of
             NoProperty \<Rightarrow>
               tool_failed core (catchTime - startTime) sid toolCall
                 (ErrorObj (''Unknown tool: '' @ tc_name toolCall))
           | InheritedProperty \<Rightarrow>
               tool_failed core (catchTime - startTime) sid toolCall
                 (ErrorObj ''tool.execute is not a function'')
           | OwnTool tool \<Rightarrow>
               (case tool (tc_parameters toolCall) (the_context core r) of
                  Rejected error \<Rightarrow> tool_failed core (catchTime - startTime) sid toolCall error
                | Pending \<Rightarrow>
                    tool_failed core (catchTime - startTime) sid toolCall (ErrorObj ''Tool timeout'')
                | Returned result \<Rightarrow>
                    (let d = tryTime - startTime;
                         entry = \<lparr>log_sessionId = sid, toolName = tc_name toolCall, duration = d,
                                  log_success = True, log_error = None,
                                  resultSize = Some (length (stringify result))\<rparr>
                     in case logToolExecution_rejects core entry of
                          Some rejection \<Rightarrow>
                            tool_failed core (catchTime - startTime) sid toolCall rejection
                        | None \<Rightarrow>
                            (Inr \<lparr>success = True, data = Some result, result_error = None,
                                  executionTime = d\<rparr>,
                             core\<lparr>tool_log := tool_log core @ [entry]\<rparr>)))))"

definition getSessionStatus :: "AgentCore \<Rightarrow> string \<Rightarrow> SessionStatus option" where
  "getSessionStatus core sid =
     (case activeSessions core sid of
        Some r \<Rightarrow> Some (getStatus (objects core r))
      | None \<Rightarrow> store_getSessionStatus core sid)"

definition terminateSession :: "AgentCore \<Rightarrow> string \<Rightarrow> string option \<Rightarrow> AgentCore" where
  "terminateSession core sid reason =
     (let core1 =
            (case activeSessions core sid of
               Some r \<Rightarrow>
                 (let core' = terminate core r reason
                  in core'\<lparr>activeSessions := (activeSessions core')(sid := None)\<rparr>)
             | None \<Rightarrow> core)
      in updateSessionStatus core1 sid TERMINATED reason)"

text \<open>The constructor: the three behaviours are registered, nothing else is there yet.\<close>

definition createAgentCore ::
  "BaseBehavior \<Rightarrow> BaseBehavior \<Rightarrow> BaseBehavior
    \<Rightarrow> (string \<rightharpoonup> (json \<Rightarrow> GenerationContext \<Rightarrow> tool_outcome))
    \<Rightarrow> (tool_execution \<Rightarrow> thrown option) \<Rightarrow> AgentCore"
where
  "createAgentCore agentic phasic simple tools rejects =
     \<lparr>activeSessions = Map.empty,
      objects = (\<lambda>r. \<lparr>session_id = [], session_context =
                   \<lparr>sessionId = [], userId = [], projectId = [], status = INITIALIZING,
                    mode = AGENTIC, phase = ANALYSIS, iteration = 0, prompt = [],
                    blueprint = None, conversationHistory = []\<rparr>,
                 isTerminated = False\<rparr>),
      allocated = 0,
      behaviors = [AGENTIC \<mapsto> agentic, PHASIC \<mapsto> phasic, SIMPLE \<mapsto> simple],
      toolkit = tools,
      emitted = [], timers = [],
      stored_contexts = Map.empty, stored_statuses = Map.empty,
      store_getSessionStatus = (\<lambda>sid. None),
      logToolExecution_rejects = rejects,
      tool_log = []\<rparr>"

text \<open>A behaviour whose calls all return, a core built with it, and a session in it.\<close>

definition quiet_behavior :: BaseBehavior where
  "quiet_behavior =
     \<lparr>generateBlueprint = (\<lambda>ctx. (Inr (JStr ''todo app''), ctx)),
      initializeProject = (\<lambda>ctx. (None, ctx)),
      implementProject = (\<lambda>ctx. ([JStr ''chunk''], None, ctx\<lparr>iteration := 1\<rparr>)),
      reviewProject = (\<lambda>ctx. (Inr \<lparr>issues = [], suggestions = [], autoFixConfidence = 0\<rparr>, ctx)),
      prepareDeployment = (\<lambda>ctx. (None, ctx)),
      applyFixes = (\<lambda>ctx found. (None, ctx))\<rparr>"

definition accepts_all :: "tool_execution \<Rightarrow> thrown option" where
  "accepts_all entry = None"

definition rejects_all :: "tool_execution \<Rightarrow> thrown option" where
  "rejects_all entry = Some (ErrorObj ''analytics down'')"

definition todo_core :: AgentCore where
  "todo_core =
     snd (initializeSession
       (createAgentCore quiet_behavior quiet_behavior quiet_behavior Map.empty accepts_all)
       ''s1'' ''u1'' ''p1'' ''build a todo app'' (Some AGENTIC))"

definition unlogged_core :: AgentCore where
  "unlogged_core =
     snd (initializeSession
       (createAgentCore quiet_behavior quiet_behavior quiet_behavior Map.empty rejects_all)
       ''s1'' ''u1'' ''p1'' ''build a todo app'' (Some AGENTIC))"

definition deploy_call :: ToolCall where
  "deploy_call = \<lparr>tc_id = ''call_9'', tc_name = ''deploy'', tc_parameters = JNull\<rparr>"

definition toString_call :: ToolCall where
  "toString_call = \<lparr>tc_id = ''call_7'', tc_name = ''toString'', tc_parameters = JNull\<rparr>"

definition failure_record :: "int \<Rightarrow> string \<Rightarrow> ToolCall \<Rightarrow> thrown \<Rightarrow> tool_execution" where
  "failure_record d sid toolCall error =
     \<lparr>log_sessionId = sid, toolName = tc_name toolCall, duration = d,
      log_success = False, log_error = Some (message_or ''Unknown error'' error),
      resultSize = None\<rparr>"

subsection \<open>Observing a run\<close>

text \<open>
  The phase events of one session among the emitted events, in order; what a step leaves
  unchanged; and a step that emits no phase event.
\<close>

fun phase_events :: "string \<Rightarrow> (string \<times> event) list \<Rightarrow> (AgentPhase \<times> phase_status) list" where
  "phase_events sid [] = []"
| "phase_events sid ((sid', PhaseEvent p st) # evs) =
     (if sid' = sid then (p, st) # phase_events sid evs else phase_events sid evs)"
| "phase_events sid (other # evs) = phase_events sid evs"

definition unframed :: "nat \<Rightarrow> AgentCore \<Rightarrow> AgentCore \<Rightarrow> bool" where
  "unframed r core core' =
     (activeSessions core' = activeSessions core \<and>
      session_id (objects core' r) = session_id (objects core r) \<and>
      behaviors core' = behaviors core)"

definition quiet_step :: "nat \<Rightarrow> step \<Rightarrow> bool" where
  "quiet_step r f =
     (\<forall>core. \<exists>evs. emitted (snd (f core)) = emitted core @ evs \<and>
        phase_events (session_id (objects core r)) evs = [] \<and>
        unframed r core (snd (f core)))"

definition all_phase_events :: "(AgentPhase \<times> phase_status) list" where
  "all_phase_events =
     [(ANALYSIS, Started), (ANALYSIS, Completed), (SETUP, Started), (SETUP, Completed),
      (IMPLEMENTATION, Started), (IMPLEMENTATION, Completed), (REVIEW, Started),
      (REVIEW, Completed), (DEPLOYMENT, Started), (DEPLOYMENT, Completed)]"

section \<open>The base behaviour (core/behaviors/agentic.ts)\<close>

text \<open>
  The fields of a behaviour instance that the build trigger reads and writes.
  \<open>generationPromise\<close> is \<open>None\<close> for \<^verbatim>\<open>null\<close> and otherwise names the promise of
  the build in flight; \<open>builds_started\<close> counts the calls of \<^verbatim>\<open>build()\<close>;
  \<open>broadcasts\<close> are the messages sent to the client.
\<close>

datatype broadcast = AgentReady | AgentStopped "string option" | BuildError string

record BaseCodingBehavior =
  generationPromise :: "nat option"
  pendingUserInputs :: "string list"
  pendingUserImages :: "string list"
  builds_started :: nat
  broadcasts :: "broadcast list"

definition isCodeGenerating :: "BaseCodingBehavior \<Rightarrow> bool" where
  "isCodeGenerating b = (generationPromise b \<noteq> None)"

text \<open>
  triggerBuild is not an \<^verbatim>\<open>async\<close> function and contains no \<^verbatim>\<open>await\<close>: the check
  of the flag, the call of \<^verbatim>\<open>build()\<close> and the assignment of the promise are one
  transition. \<open>build\<close> is the part of the abstract \<^verbatim>\<open>build()\<close> that runs before its
  first suspension; the rest of the build runs later and ends in \<open>build_settled\<close>.
\<close>

definition triggerBuild ::
  "(BaseCodingBehavior \<Rightarrow> BaseCodingBehavior) \<Rightarrow> BaseCodingBehavior \<Rightarrow> BaseCodingBehavior"
where
  "triggerBuild build b =
     (if generationPromise b \<noteq> None then b
      else
        (let b1 = build (b\<lparr>builds_started := Suc (builds_started b)\<rparr>)
         in b1\<lparr>generationPromise := Some (builds_started b1)\<rparr>))"

text \<open>The \<^verbatim>\<open>then\<close>, \<^verbatim>\<open>catch\<close> and \<^verbatim>\<open>finally\<close> callbacks of the build promise.\<close>

definition build_settled :: "thrown option \<Rightarrow> BaseCodingBehavior \<Rightarrow> BaseCodingBehavior" where
  "build_settled rejection b =
     (let b1 = (case rejection of
                  None \<Rightarrow> b
                | Some error \<Rightarrow>
                    b\<lparr>broadcasts := broadcasts b @ [BuildError (message_or ''Build failed'' error)]\<rparr>)
      in b1\<lparr>generationPromise := None\<rparr>)"

definition handleUserInput ::
  "(BaseCodingBehavior \<Rightarrow> BaseCodingBehavior) \<Rightarrow> BaseCodingBehavior \<Rightarrow> string \<Rightarrow> string list
    \<Rightarrow> BaseCodingBehavior"
where
  "handleUserInput build b userMessage images =
     (let b1 = b\<lparr>pendingUserInputs := pendingUserInputs b @ [userMessage]\<rparr>;
          b2 = (if length images > 0
                then b1\<lparr>pendingUserImages := pendingUserImages b1 @ images\<rparr> else b1)
      in if \<not> isCodeGenerating b2 then triggerBuild build b2 else b2)"

text \<open>A behaviour with a build in flight, an idle one, and a build that queues nothing.\<close>

definition building_behavior :: BaseCodingBehavior where
  "building_behavior =
     \<lparr>generationPromise = Some 1, pendingUserInputs = [''add a footer''],
      pendingUserImages = [], builds_started = 1, broadcasts = [AgentReady]\<rparr>"

definition idle_behavior :: BaseCodingBehavior where
  "idle_behavior =
     \<lparr>generationPromise = None, pendingUserInputs = [], pendingUserImages = [],
      builds_started = 0, broadcasts = [AgentReady]\<rparr>"

definition plain_build :: "BaseCodingBehavior \<Rightarrow> BaseCodingBehavior" where
  "plain_build b = b\<lparr>pendingUserInputs := []\<rparr>"

chapter \<open>Properties\<close>

section \<open>truncateMessages\<close>

lemma truncate_loop_drop:
  "k \<le> length messages \<Longrightarrow> result = drop k messages \<Longrightarrow>
   \<exists>j\<le>k. truncate_loop stringify messages maxTokens k tot result = drop j messages"
proof (induction k arbitrary: tot result)
  case 0
  then show ?case by simp
next
  case (Suc i)
  have step: "messages ! i # drop (Suc i) messages = drop i messages"
    using Suc.prems(1) by (simp add: Cons_nth_drop_Suc)
  show ?case
  proof (cases "real (tot + estimateTokens
      (case content (messages ! i) of Text s \<Rightarrow> s | Structured j \<Rightarrow> stringify j)) > maxTokens
      \<and> length result > 0")
    case True
    then have "truncate_loop stringify messages maxTokens (Suc i) tot result = result"
      by (simp add: Let_def)
    with Suc.prems(2) show ?thesis by auto
  next
    case False
    let ?t = "tot + estimateTokens
      (case content (messages ! i) of Text s \<Rightarrow> s | Structured j \<Rightarrow> stringify j)"
    from False have eq: "truncate_loop stringify messages maxTokens (Suc i) tot result
        = truncate_loop stringify messages maxTokens i ?t (messages ! i # result)"
      by (subst truncate_loop.simps) (simp only: Let_def if_False)
    have "i \<le> length messages" using Suc.prems(1) by simp
    moreover have "messages ! i # result = drop i messages"
      using Suc.prems(2) step by simp
    ultimately obtain j where "j \<le> i"
      and "truncate_loop stringify messages maxTokens i ?t (messages ! i # result) = drop j messages"
      using Suc.IH by blast
    with eq show ?thesis by (metis le_SucI)
  qed
qed

lemma truncateMessages_drop:
  "\<exists>j. j \<le> length messages - 1 \<and> truncateMessages stringify messages maxTokens = drop j messages"
proof (cases "length messages")
  case 0
  then show ?thesis by (simp add: truncateMessages_def)
next
  case (Suc i)
  let ?m = "messages ! i"
  let ?t = "estimateTokens (case content ?m of Text s \<Rightarrow> s | Structured j \<Rightarrow> stringify j)"
  have first: "truncateMessages stringify messages maxTokens
      = truncate_loop stringify messages maxTokens i ?t [?m]"
    by (simp add: truncateMessages_def Suc Let_def)
  have "[?m] = drop i messages"
    using Suc by (metis Cons_nth_drop_Suc drop_all lessI order_refl)
  moreover have "i \<le> length messages" using Suc by simp
  ultimately obtain j where "j \<le> i"
      and "truncate_loop stringify messages maxTokens i ?t [?m] = drop j messages"
    using truncate_loop_drop by blast
  with first Suc show ?thesis by auto
qed

text \<open>
  C10. For every message list and every token limit, truncateMessages returns a
  contiguous suffix of the input (the most recent messages, in their original order);
  when the input is not empty the result is not empty and ends with the most recent
  message, whatever its estimated token count.
\<close>

theorem truncateMessages_suffix_nonempty:
  "suffix (truncateMessages stringify messages maxTokens) messages \<and>
   (messages \<noteq> [] \<longrightarrow>
      truncateMessages stringify messages maxTokens \<noteq> [] \<and>
      last (truncateMessages stringify messages maxTokens) = last messages)"
proof -
  obtain j where j: "j \<le> length messages - 1"
    and eq: "truncateMessages stringify messages maxTokens = drop j messages"
    using truncateMessages_drop by blast
  have "suffix (drop j messages) messages" by (rule suffix_drop)
  moreover have "drop j messages \<noteq> [] \<and> last (drop j messages) = last messages"
    if "messages \<noteq> []"
  proof -
    from that j have "j < length messages"
      by (cases messages) auto
    then show ?thesis by simp
  qed
  ultimately show ?thesis using eq by simp
qed

theorem truncateMessages_suffix_nonempty_witness:
  "[older_message, newest_message] \<noteq> [] \<and>
   truncateMessages stringify_braces [older_message, newest_message] 1 = [newest_message] \<and>
   suffix (truncateMessages stringify_braces [older_message, newest_message] 1)
     [older_message, newest_message] \<and>
   truncateMessages stringify_braces [older_message, newest_message] 1 \<noteq> [] \<and>
   last (truncateMessages stringify_braces [older_message, newest_message] 1) = newest_message"
proof -
  have run: "truncateMessages stringify_braces [older_message, newest_message] 1 = [newest_message]"
    by (simp add: truncateMessages_def numeral_2_eq_2 Let_def estimateTokens_def
        older_message_def newest_message_def)
  show ?thesis
    using truncateMessages_suffix_nonempty
      [of stringify_braces "[older_message, newest_message]" 1] run
    by simp
qed

section \<open>withRetry\<close>

lemma str_includes_iff: "str_includes s e \<longleftrightarrow> (\<exists>ps ss. s = ps @ e @ ss)"
proof (induction s)
  case Nil
  then show ?case by auto
next
  case (Cons c cs)
  show ?case
  proof
    assume "str_includes (c # cs) e"
    then consider "prefix e (c # cs)" | "str_includes cs e" by auto
    then show "\<exists>ps ss. c # cs = ps @ e @ ss"
    proof cases
      case 1
      then obtain ss where "c # cs = e @ ss" by (auto simp: prefix_def)
      then have "c # cs = [] @ e @ ss" by simp
      then show ?thesis by blast
    next
      case 2
      then obtain ps ss where "cs = ps @ e @ ss" using Cons.IH by blast
      then have "c # cs = (c # ps) @ e @ ss" by simp
      then show ?thesis by blast
    qed
  next
    assume "\<exists>ps ss. c # cs = ps @ e @ ss"
    then obtain ps ss where eq: "c # cs = ps @ e @ ss" by blast
    show "str_includes (c # cs) e"
    proof (cases ps)
      case Nil
      with eq have "prefix e (c # cs)" by (simp add: prefix_def)
      then show ?thesis by simp
    next
      case (Cons p ps')
      with eq have "cs = ps' @ e @ ss" by simp
      then have "str_includes cs e" using Cons.IH by blast
      then show ?thesis by simp
    qed
  qed
qed

lemma str_includes_toLowerCase:
  assumes "str_includes s e" and "toLowerCase e = e"
  shows "str_includes (toLowerCase s) e"
proof -
  from assms(1) obtain ps ss where "s = ps @ e @ ss"
    using str_includes_iff by blast
  then have "toLowerCase s = toLowerCase ps @ toLowerCase e @ toLowerCase ss"
    by (simp add: toLowerCase_def)
  with assms(2) show ?thesis
    using str_includes_iff by metis
qed

lemma default_retryable_lower:
  "e \<in> set (retryableErrors default_retry_options) \<Longrightarrow> toLowerCase e = e"
  by (auto simp: default_retry_options_def toLowerCase_def lower_char_def)

text \<open>
  A message that contains one of the default substrings is classified as retryable: the
  substrings are lower case, so lowering the message keeps them.
\<close>

lemma contains_default_isRetryable:
  assumes "\<exists>s\<in>set (retryableErrors default_retry_options). str_includes (message_of err) s"
  shows "isRetryable (retryableErrors default_retry_options) err"
proof -
  from assms obtain s where s: "s \<in> set (retryableErrors default_retry_options)"
    and inc: "str_includes (message_of err) s" by blast
  have "str_includes (toLowerCase (message_of err)) s"
    using inc default_retryable_lower [OF s] by (rule str_includes_toLowerCase)
  with s show ?thesis
    unfolding isRetryable_def list_ex_iff by blast
qed

lemma message_of_asError: "message_of (asError e) = message_of e"
  by (cases e) simp_all

lemma withRetry_third_succeeds:
  assumes "operation 0 = Inl e0" and "operation 1 = Inl e1" and "operation 2 = Inr v"
    and "isRetryable (retryableErrors default_retry_options) (asError e0)"
    and "isRetryable (retryableErrors default_retry_options) (asError e1)"
  shows "fst (withRetry operation default_retry_options random) = Inr v"
    and "fst (snd (withRetry operation default_retry_options random)) = 3"
  using assms
  by (simp_all add: withRetry_def numeral_2_eq_2 Let_def default_retry_options_def)

lemma withRetry_non_retryable:
  assumes "operation 0 = Inl e"
    and "\<not> isRetryable (retryableErrors default_retry_options) (asError e)"
  shows "fst (withRetry operation default_retry_options random) = Inl (asError e)"
    and "fst (snd (withRetry operation default_retry_options random)) = 1"
  using assms
  by (simp_all add: withRetry_def Let_def default_retry_options_def)

lemma withRetry_exhausted:
  assumes "operation 0 = Inl e0" and "operation 1 = Inl e1" and "operation 2 = Inl e2"
    and "isRetryable (retryableErrors default_retry_options) (asError e0)"
    and "isRetryable (retryableErrors default_retry_options) (asError e1)"
  shows "fst (withRetry operation default_retry_options random) = Inl (asError e2)"
    and "fst (snd (withRetry operation default_retry_options random)) = 3"
  using assms
  by (simp_all add: withRetry_def numeral_2_eq_2 Let_def default_retry_options_def)

text \<open>
  The retry wrapper of the inference utilities behaves the same way with its default options, under
  which every error is retried: the third invocation decides.
\<close>

lemma withRetry_core_default:
  assumes "fn 0 = Inl e0" and "fn 1 = Inl e1"
  shows "fn 2 = Inr v \<Longrightarrow>
           fst (withRetry_core fn default_core_retry_options) = Inr v \<and>
           fst (snd (withRetry_core fn default_core_retry_options)) = 3"
    and "fn 2 = Inl e2 \<Longrightarrow>
           fst (withRetry_core fn default_core_retry_options) = Inl (asError e2) \<and>
           fst (snd (withRetry_core fn default_core_retry_options)) = 3"
  using assms
  by (simp_all add: withRetry_core_def numeral_2_eq_2 Let_def default_core_retry_options_def)

text \<open>
  C6, as the code has it. With the default options: an operation whose first two
  invocations fail with errors whose messages contain one of the configured substrings
  and whose third invocation succeeds is invoked exactly 3 times and withRetry returns
  the value; an operation whose first invocation fails with an error classified as not
  retryable is invoked exactly once; an operation that fails three times is invoked
  exactly 3 times. What withRetry throws is the last failure as an Error: the thrown
  Error itself when the operation threw an Error instance, and otherwise a new Error
  whose message is the text of the thrown value.
\<close>

theorem withRetry_default_outcomes:
  "(operation 0 = Inl e0 \<and> operation 1 = Inl e1 \<and> operation 2 = Inr v \<and>
    (\<exists>s\<in>set (retryableErrors default_retry_options). str_includes (message_of e0) s) \<and>
    (\<exists>s\<in>set (retryableErrors default_retry_options). str_includes (message_of e1) s)
    \<longrightarrow> fst (withRetry operation default_retry_options random) = Inr v \<and>
        fst (snd (withRetry operation default_retry_options random)) = 3) \<and>
   (operation 0 = Inl e \<and> \<not> isRetryable (retryableErrors default_retry_options) (asError e)
    \<longrightarrow> fst (withRetry operation default_retry_options random) = Inl (asError e) \<and>
        fst (snd (withRetry operation default_retry_options random)) = 1 \<and>
        (\<forall>m. e = ErrorObj m \<longrightarrow>
           fst (withRetry operation default_retry_options random) = Inl e)) \<and>
   (operation 0 = Inl e0 \<and> operation 1 = Inl e1 \<and> operation 2 = Inl e2 \<and>
    isRetryable (retryableErrors default_retry_options) (asError e0) \<and>
    isRetryable (retryableErrors default_retry_options) (asError e1)
    \<longrightarrow> fst (withRetry operation default_retry_options random) = Inl (asError e2) \<and>
        fst (snd (withRetry operation default_retry_options random)) = 3 \<and>
        (\<forall>m. e2 = ErrorObj m \<longrightarrow>
           fst (withRetry operation default_retry_options random) = Inl e2))"
proof (intro conjI impI)
  assume h: "operation 0 = Inl e0 \<and> operation 1 = Inl e1 \<and> operation 2 = Inr v \<and>
    (\<exists>s\<in>set (retryableErrors default_retry_options). str_includes (message_of e0) s) \<and>
    (\<exists>s\<in>set (retryableErrors default_retry_options). str_includes (message_of e1) s)"
  then have r0: "isRetryable (retryableErrors default_retry_options) (asError e0)"
    and r1: "isRetryable (retryableErrors default_retry_options) (asError e1)"
    by (simp_all add: contains_default_isRetryable message_of_asError)
  from h r0 r1 show "fst (withRetry operation default_retry_options random) = Inr v"
    by (simp add: withRetry_third_succeeds(1))
  from h r0 r1 show "fst (snd (withRetry operation default_retry_options random)) = 3"
    by (simp add: withRetry_third_succeeds(2))
next
  assume h: "operation 0 = Inl e \<and>
    \<not> isRetryable (retryableErrors default_retry_options) (asError e)"
  then show r: "fst (withRetry operation default_retry_options random) = Inl (asError e)"
    by (simp add: withRetry_non_retryable(1))
  from h show "fst (snd (withRetry operation default_retry_options random)) = 1"
    by (simp add: withRetry_non_retryable(2))
  from r show "\<forall>m. e = ErrorObj m \<longrightarrow>
      fst (withRetry operation default_retry_options random) = Inl e"
    by simp
next
  assume h: "operation 0 = Inl e0 \<and> operation 1 = Inl e1 \<and> operation 2 = Inl e2 \<and>
    isRetryable (retryableErrors default_retry_options) (asError e0) \<and>
    isRetryable (retryableErrors default_retry_options) (asError e1)"
  then show r: "fst (withRetry operation default_retry_options random) = Inl (asError e2)"
    by (simp add: withRetry_exhausted(1))
  from h show "fst (snd (withRetry operation default_retry_options random)) = 3"
    by (simp add: withRetry_exhausted(2))
  from r show "\<forall>m. e2 = ErrorObj m \<longrightarrow>
      fst (withRetry operation default_retry_options random) = Inl e2"
    by simp
qed

theorem withRetry_default_outcomes_witness:
  "flaky_operation 0 = Inl (ErrorObj ''request timeout'') \<and>
   flaky_operation 1 = Inl (NonError ''rate_limit hit'') \<and>
   flaky_operation 2 = Inr ''ok'' \<and>
   str_includes ''rate_limit hit'' ''rate_limit'' \<and>
   fst (withRetry flaky_operation default_retry_options no_jitter) = Inr ''ok'' \<and>
   fst (snd (withRetry flaky_operation default_retry_options no_jitter)) = 3 \<and>
   denied_operation 0 = Inl (ErrorObj ''permission denied'') \<and>
   \<not> isRetryable (retryableErrors default_retry_options) (ErrorObj ''permission denied'') \<and>
   fst (withRetry denied_operation default_retry_options no_jitter)
     = Inl (ErrorObj ''permission denied'') \<and>
   fst (snd (withRetry denied_operation default_retry_options no_jitter)) = 1 \<and>
   offline_operation 2 = Inl (ErrorObj ''network_error: still down'') \<and>
   isRetryable (retryableErrors default_retry_options) (ErrorObj ''network_error'') \<and>
   fst (withRetry offline_operation default_retry_options no_jitter)
     = Inl (ErrorObj ''network_error: still down'') \<and>
   fst (snd (withRetry offline_operation default_retry_options no_jitter)) = 3"
proof -
  have denied: "\<not> isRetryable (retryableErrors default_retry_options)
      (asError (ErrorObj ''permission denied''))"
    by (simp add: isRetryable_def default_retry_options_def toLowerCase_def lower_char_def)
  have offline: "isRetryable (retryableErrors default_retry_options)
      (asError (ErrorObj ''network_error''))"
    by (simp add: isRetryable_def default_retry_options_def toLowerCase_def lower_char_def)
  have limit: "(\<exists>s\<in>set (retryableErrors default_retry_options).
        str_includes (message_of (ErrorObj ''request timeout'')) s) \<and>
      (\<exists>s\<in>set (retryableErrors default_retry_options).
        str_includes (message_of (NonError ''rate_limit hit'')) s)"
    by (simp add: default_retry_options_def)
  have exhausted: "fst (withRetry offline_operation default_retry_options no_jitter)
      = Inl (ErrorObj ''network_error: still down'') \<and>
     fst (snd (withRetry offline_operation default_retry_options no_jitter)) = 3"
    using withRetry_default_outcomes
      [of offline_operation "ErrorObj ''network_error''" "ErrorObj ''network_error''" _
        no_jitter _ "ErrorObj ''network_error: still down''"] offline
    by (simp add: offline_operation_def)
  have once: "fst (withRetry denied_operation default_retry_options no_jitter)
      = Inl (ErrorObj ''permission denied'') \<and>
     fst (snd (withRetry denied_operation default_retry_options no_jitter)) = 1"
    using withRetry_default_outcomes
      [of denied_operation _ _ _ no_jitter "ErrorObj ''permission denied''"] denied
    by (simp add: denied_operation_def)
  have third: "fst (withRetry flaky_operation default_retry_options no_jitter) = Inr ''ok'' \<and>
     fst (snd (withRetry flaky_operation default_retry_options no_jitter)) = 3"
    using withRetry_default_outcomes
      [of flaky_operation "ErrorObj ''request timeout''" "NonError ''rate_limit hit''" "''ok''"
        no_jitter] limit
    by (simp add: flaky_operation_def)
  show ?thesis
    using exhausted once third denied offline
    by (simp add: flaky_operation_def denied_operation_def offline_operation_def)
qed

text \<open>
  The claim as stated fails where the operation rejects with a value that is not an Error
  instance: the rejection is not classified as retryable, the operation has been invoked
  once, and withRetry throws a new Error, not the value.
\<close>

theorem withRetry_wraps_thrown_value_counterexample:
  "boom_operation 0 = Inl (NonError ''boom'') \<and>
   \<not> isRetryable (retryableErrors default_retry_options) (asError (NonError ''boom'')) \<and>
   fst (snd (withRetry boom_operation default_retry_options no_jitter)) = 1 \<and>
   fst (withRetry boom_operation default_retry_options no_jitter) = Inl (ErrorObj ''boom'') \<and>
   fst (withRetry boom_operation default_retry_options no_jitter) \<noteq> Inl (NonError ''boom'')"
  by (simp add: withRetry_def boom_operation_def default_retry_options_def isRetryable_def
      toLowerCase_def lower_char_def Let_def)

section \<open>createStreamIterator\<close>

lemma split_newline_nonempty: "split_newline s \<noteq> []"
  by (induction s) auto

lemma split_newline_plain: "newline \<notin> set r \<Longrightarrow> split_newline r = [r]"
  by (induction r) auto

lemma split_newline_line:
  "newline \<notin> set l \<Longrightarrow> split_newline (l @ newline # s) = l # split_newline s"
  by (induction l) auto

lemma split_newline_terminated:
  "\<forall>l\<in>set frames. newline \<notin> set l \<Longrightarrow>
   split_newline (terminated frames @ s) = frames @ split_newline s"
  by (induction frames) (auto simp: terminated_def split_newline_line)

lemma process_lines_unrecognized:
  "\<forall>l\<in>set frames. unrecognized parseFrame l \<Longrightarrow>
   process_lines parseFrame (frames @ others) = process_lines parseFrame others"
  by (induction frames) (auto simp: unrecognized_def Let_def)

lemma process_lines_done:
  "done_frame l \<Longrightarrow> process_lines parseFrame (l # others) = ([CompleteChunk], True)"
  by (simp add: done_frame_def Let_def)

lemma cut_terminated:
  assumes "B @ X = terminated frames @ dl @ newline # rest"
    and "\<forall>l\<in>set frames. newline \<notin> set l" and "newline \<notin> set dl"
  shows "(\<exists>Y. B = terminated frames @ dl @ newline # Y) \<or>
         (\<exists>fs1 fs2 r. frames = fs1 @ fs2 \<and> B = terminated fs1 @ r \<and> newline \<notin> set r \<and>
            r @ X = terminated fs2 @ dl @ newline # rest)"
  using assms
proof (induction frames arbitrary: B)
  case Nil
  then have eq: "B @ X = dl @ newline # rest" by (simp add: terminated_def)
  then obtain us where "B = dl @ us \<and> us @ X = newline # rest \<or> B @ us = dl \<and> X = us @ newline # rest"
    unfolding append_eq_append_conv2 by blast
  then consider (short) Z where "dl = B @ Z"
    | (long) Z where "B = dl @ Z" "Z \<noteq> []" "Z @ X = newline # rest"
    by (cases "us = []") auto
  then show ?case
  proof cases
    case short
    then have "newline \<notin> set B" using Nil.prems(3) by auto
    moreover have "B @ X = terminated [] @ dl @ newline # rest" using eq by (simp add: terminated_def)
    ultimately have "[] = [] @ ([]::string list) \<and> B = terminated [] @ B \<and> newline \<notin> set B \<and>
            B @ X = terminated [] @ dl @ newline # rest" by (simp add: terminated_def)
    then show ?thesis by blast
  next
    case long
    then obtain Y where "Z = newline # Y" by (cases Z) auto
    with long show ?thesis by (simp add: terminated_def)
  qed
next
  case (Cons f fs)
  have eq: "B @ X = f @ newline # (terminated fs @ dl @ newline # rest)"
    using Cons.prems(1) by (simp add: terminated_def)
  have nf: "newline \<notin> set f" using Cons.prems(2) by simp
  from eq obtain us where "B = f @ us \<and> us @ X = newline # (terminated fs @ dl @ newline # rest)
      \<or> B @ us = f \<and> X = us @ newline # (terminated fs @ dl @ newline # rest)"
    unfolding append_eq_append_conv2 by blast
  then consider (short) Z where "f = B @ Z" | (long) Z where "B = f @ Z" "Z \<noteq> []"
      "Z @ X = newline # (terminated fs @ dl @ newline # rest)"
    by (cases "us = []") auto
  then show ?case
  proof cases
    case short
    then have "newline \<notin> set B" using nf by auto
    moreover have "f # fs = [] @ (f # fs)" by simp
    moreover have "B = terminated [] @ B" by (simp add: terminated_def)
    moreover have "B @ X = terminated (f # fs) @ dl @ newline # rest" using Cons.prems(1) .
    ultimately show ?thesis by blast
  next
    case long
    then obtain B' where Z: "Z = newline # B'" and rest: "B' @ X = terminated fs @ dl @ newline # rest"
      by (cases Z) auto
    have "\<forall>l\<in>set fs. newline \<notin> set l" using Cons.prems(2) by simp
    from Cons.IH [OF rest this Cons.prems(3)]
    show ?thesis
    proof
      assume "\<exists>Y. B' = terminated fs @ dl @ newline # Y"
      then obtain Y where "B' = terminated fs @ dl @ newline # Y" by blast
      then have "B = terminated (f # fs) @ dl @ newline # Y"
        using long(1) Z by (simp add: terminated_def)
      then show ?thesis by blast
    next
      assume "\<exists>fs1 fs2 r. fs = fs1 @ fs2 \<and> B' = terminated fs1 @ r \<and> newline \<notin> set r \<and>
            r @ X = terminated fs2 @ dl @ newline # rest"
      then obtain fs1 fs2 r where "fs = fs1 @ fs2" "B' = terminated fs1 @ r" "newline \<notin> set r"
        "r @ X = terminated fs2 @ dl @ newline # rest" by blast
      then have "f # fs = (f # fs1) @ fs2 \<and> B = terminated (f # fs1) @ r \<and> newline \<notin> set r \<and>
            r @ X = terminated fs2 @ dl @ newline # rest"
        using long(1) Z by (simp add: terminated_def)
      then show ?thesis by blast
    qed
  qed
qed

lemma stream_loop_done:
  assumes "newline \<notin> set buffer"
    and "buffer @ concat reads = terminated frames @ dl @ newline # rest"
    and "\<forall>l\<in>set frames. unrecognized parseFrame l" and "done_frame dl"
  shows "stream_loop parseFrame buffer reads read_error = ([CompleteChunk], None)"
  using assms
proof (induction reads arbitrary: buffer frames)
  case Nil
  then have "buffer = terminated frames @ dl @ newline # rest" by simp
  then have "newline \<in> set buffer" by simp
  with Nil.prems(1) show ?case by simp
next
  case (Cons v vs)
  have nlf: "\<forall>l\<in>set frames. newline \<notin> set l"
    using Cons.prems(3) by (simp add: unrecognized_def)
  have nld: "newline \<notin> set dl" using Cons.prems(4) by (simp add: done_frame_def)
  have "(buffer @ v) @ concat vs = terminated frames @ dl @ newline # rest"
    using Cons.prems(2) by simp
  from cut_terminated [OF this nlf nld]
  show ?case
  proof
    assume "\<exists>Y. buffer @ v = terminated frames @ dl @ newline # Y"
    then obtain Y where Y: "buffer @ v = terminated frames @ dl @ newline # Y" by blast
    have "split_newline (buffer @ v) = frames @ dl # split_newline Y"
      using Y nlf nld by (simp add: split_newline_terminated split_newline_line)
    then have "butlast (split_newline (buffer @ v)) = frames @ dl # butlast (split_newline Y)"
      by (simp add: butlast_append split_newline_nonempty)
    moreover have "process_lines parseFrame (frames @ dl # butlast (split_newline Y))
        = process_lines parseFrame (dl # butlast (split_newline Y))"
      using Cons.prems(3) by (rule process_lines_unrecognized)
    moreover have "process_lines parseFrame (dl # butlast (split_newline Y)) = ([CompleteChunk], True)"
      using Cons.prems(4) by (rule process_lines_done)
    ultimately have "process_lines parseFrame (butlast (split_newline (buffer @ v)))
        = ([CompleteChunk], True)"
      by simp
    then show ?thesis by (simp add: Let_def)
  next
    assume "\<exists>fs1 fs2 r. frames = fs1 @ fs2 \<and> buffer @ v = terminated fs1 @ r \<and> newline \<notin> set r \<and>
            r @ concat vs = terminated fs2 @ dl @ newline # rest"
    then obtain fs1 fs2 r where fr: "frames = fs1 @ fs2" and B: "buffer @ v = terminated fs1 @ r"
      and r: "newline \<notin> set r" and rest: "r @ concat vs = terminated fs2 @ dl @ newline # rest"
      by blast
    have "split_newline (buffer @ v) = fs1 @ [r]"
      using B nlf fr r by (simp add: split_newline_terminated split_newline_plain)
    then have bl: "butlast (split_newline (buffer @ v)) = fs1" and la: "last (split_newline (buffer @ v)) = r"
      by simp_all
    have "process_lines parseFrame (fs1 @ []) = process_lines parseFrame []"
      using Cons.prems(3) fr by (intro process_lines_unrecognized) simp
    then have pl: "process_lines parseFrame fs1 = ([], False)" by simp
    have "\<forall>l\<in>set fs2. unrecognized parseFrame l" using Cons.prems(3) fr by simp
    from Cons.IH [OF r rest this Cons.prems(4)]
    have "stream_loop parseFrame r vs read_error = ([CompleteChunk], None)" .
    then show ?thesis using bl la pl by (simp add: Let_def)
  qed
qed

lemma cut_unterminated:
  assumes "B @ X = terminated frames @ tail"
    and "\<forall>l\<in>set frames. newline \<notin> set l" and "newline \<notin> set tail"
  shows "\<exists>fs1 fs2 r. frames = fs1 @ fs2 \<and> B = terminated fs1 @ r \<and> newline \<notin> set r \<and>
            r @ X = terminated fs2 @ tail"
  using assms
proof (induction frames arbitrary: B)
  case Nil
  then have "B @ X = tail" by (simp add: terminated_def)
  then have "newline \<notin> set B" using Nil.prems(3) by auto
  then have "[] = [] @ ([]::string list) \<and> B = terminated [] @ B \<and> newline \<notin> set B \<and>
      B @ X = terminated [] @ tail"
    using Nil.prems(1) by (simp add: terminated_def)
  then show ?case by blast
next
  case (Cons f fs)
  have eq: "B @ X = f @ newline # (terminated fs @ tail)"
    using Cons.prems(1) by (simp add: terminated_def)
  have nf: "newline \<notin> set f" using Cons.prems(2) by simp
  from eq obtain us where "B = f @ us \<and> us @ X = newline # (terminated fs @ tail)
      \<or> B @ us = f \<and> X = us @ newline # (terminated fs @ tail)"
    unfolding append_eq_append_conv2 by blast
  then consider (short) Z where "f = B @ Z" | (long) Z where "B = f @ Z" "Z \<noteq> []"
      "Z @ X = newline # (terminated fs @ tail)"
    by (cases "us = []") auto
  then show ?case
  proof cases
    case short
    then have "newline \<notin> set B" using nf by auto
    moreover have "f # fs = [] @ (f # fs)" by simp
    moreover have "B = terminated [] @ B" by (simp add: terminated_def)
    moreover have "B @ X = terminated (f # fs) @ tail" using Cons.prems(1) .
    ultimately show ?thesis by blast
  next
    case long
    then obtain B' where Z: "Z = newline # B'" and rest: "B' @ X = terminated fs @ tail"
      by (cases Z) auto
    have "\<forall>l\<in>set fs. newline \<notin> set l" using Cons.prems(2) by simp
    from Cons.IH [OF rest this Cons.prems(3)]
    obtain fs1 fs2 r where "fs = fs1 @ fs2" "B' = terminated fs1 @ r" "newline \<notin> set r"
      "r @ X = terminated fs2 @ tail" by blast
    then have "f # fs = (f # fs1) @ fs2 \<and> B = terminated (f # fs1) @ r \<and> newline \<notin> set r \<and>
          r @ X = terminated fs2 @ tail"
      using long(1) Z by (simp add: terminated_def)
    then show ?thesis by blast
  qed
qed

lemma stream_loop_unterminated:
  assumes "newline \<notin> set buffer"
    and "buffer @ concat reads = terminated frames @ tail"
    and "\<forall>l\<in>set frames. unrecognized parseFrame l" and "newline \<notin> set tail"
  shows "stream_loop parseFrame buffer reads None = ([], None)"
  using assms
proof (induction reads arbitrary: buffer frames)
  case Nil
  then show ?case by simp
next
  case (Cons v vs)
  have nlf: "\<forall>l\<in>set frames. newline \<notin> set l"
    using Cons.prems(3) by (simp add: unrecognized_def)
  have "(buffer @ v) @ concat vs = terminated frames @ tail"
    using Cons.prems(2) by simp
  from cut_unterminated [OF this nlf Cons.prems(4)]
  obtain fs1 fs2 r where fr: "frames = fs1 @ fs2" and B: "buffer @ v = terminated fs1 @ r"
    and r: "newline \<notin> set r" and rest: "r @ concat vs = terminated fs2 @ tail"
    by blast
  have "split_newline (buffer @ v) = fs1 @ [r]"
    using B nlf fr r by (simp add: split_newline_terminated split_newline_plain)
  then have bl: "butlast (split_newline (buffer @ v)) = fs1"
    and la: "last (split_newline (buffer @ v)) = r"
    by simp_all
  have "process_lines parseFrame (fs1 @ []) = process_lines parseFrame []"
    using Cons.prems(3) fr by (intro process_lines_unrecognized) simp
  then have pl: "process_lines parseFrame fs1 = ([], False)" by simp
  have "\<forall>l\<in>set fs2. unrecognized parseFrame l" using Cons.prems(3) fr by simp
  from Cons.IH [OF r rest this Cons.prems(4)]
  have "stream_loop parseFrame r vs None = ([], None)" .
  then show ?case using bl la pl by (simp add: Let_def)
qed

section \<open>The tool-calling loop\<close>

lemma executeToolCalls_loop_length:
  "length (fst (executeToolCalls_loop stringify tools cb toolCalls results ui))
     = length results + length toolCalls"
  by (induction toolCalls arbitrary: results ui) (auto split: option.splits sum.splits)

lemma executeToolCalls_length:
  "length (fst (executeToolCalls stringify toolCalls tools cb)) = length toolCalls"
  by (simp add: executeToolCalls_def executeToolCalls_loop_length)

lemma executeToolCalls_loop_results:
  "fst (executeToolCalls_loop stringify tools cb toolCalls results ui)
     = results @ map (tool_result tools) toolCalls"
  by (induction toolCalls arbitrary: results ui)
     (auto simp: tool_result_def split: option.splits sum.splits)

lemma executeToolCalls_results:
  "fst (executeToolCalls stringify toolCalls tools cb) = map (tool_result tools) toolCalls"
  by (simp add: executeToolCalls_def executeToolCalls_loop_results)

lemma tool_messages_zip:
  "length toolResults + idx = length toolCalls \<Longrightarrow>
   tool_messages stringify toolCalls toolResults idx
     = Inr (map (\<lambda>(tc, result). tool_reply stringify tc result)
              (zip (drop idx toolCalls) toolResults))"
proof (induction toolResults arbitrary: idx)
  case Nil
  then show ?case by simp
next
  case (Cons result toolResults)
  then have idx: "idx < length toolCalls"
    and len: "length toolResults + Suc idx = length toolCalls"
    by simp_all
  have cut: "drop idx toolCalls = toolCalls ! idx # drop (Suc idx) toolCalls"
    using idx by (simp add: Cons_nth_drop_Suc)
  show ?case
    using Cons.IH [OF len] idx by (simp add: cut tool_reply_def)
qed

lemma tool_messages_of_results:
  "tool_messages stringify toolCalls (fst (executeToolCalls stringify toolCalls tools cb)) 0
     = Inr (map (\<lambda>tc. tool_reply stringify tc (tool_result tools tc)) toolCalls)"
proof -
  have "zip toolCalls (map (tool_result tools) toolCalls)
      = map (\<lambda>tc. (tc, tool_result tools tc)) toolCalls"
    by (induction toolCalls) simp_all
  then show ?thesis
    using tool_messages_zip [of "map (tool_result tools) toolCalls" 0 toolCalls stringify]
    by (simp add: executeToolCalls_results comp_def)
qed

text \<open>
  One round of the loop on a batch: the model turn that follows is run on the
  \<open>next_history\<close> of the batch.
\<close>

lemma loop_step:
  assumes "iter < MAX_TOOL_ITERATIONS"
    and "now rt (Suc iter) - now rt 0 \<le> MAX_OPERATION_TIME_MS"
    and "streamInference (JSON_parse rt) sig (inferStream rt iter msgs)
           = ResponseToolCalls c toolCalls"
  shows "fst (runInferenceWithTools_loop rt tools sig cb iter msgs)
           = fst (runInferenceWithTools_loop rt tools sig cb (Suc iter)
                   (next_history (JSON_stringify rt) tools msgs c toolCalls))"
    and "fst (snd (runInferenceWithTools_loop rt tools sig cb iter msgs))
           = (msgs, ResponseToolCalls c toolCalls)
             # fst (snd (runInferenceWithTools_loop rt tools sig cb (Suc iter)
                     (next_history (JSON_stringify rt) tools msgs c toolCalls)))"
proof -
  obtain toolResults ui
    where ex: "executeToolCalls (JSON_stringify rt) toolCalls tools cb = (toolResults, ui)"
    by (cases "executeToolCalls (JSON_stringify rt) toolCalls tools cb") auto
  have ms: "tool_messages (JSON_stringify rt) toolCalls toolResults 0
      = Inr (map (\<lambda>tc. tool_reply (JSON_stringify rt) tc (tool_result tools tc)) toolCalls)"
    using tool_messages_of_results [of "JSON_stringify rt" toolCalls tools cb] ex by simp
  let ?rec = "runInferenceWithTools_loop rt tools sig cb (Suc iter)
      (next_history (JSON_stringify rt) tools msgs c toolCalls)"
  have nt: "\<not> now rt (Suc iter) - now rt 0 > MAX_OPERATION_TIME_MS"
    using assms(2) by simp
  have unfold: "runInferenceWithTools_loop rt tools sig cb iter msgs
      = (fst ?rec, (msgs, ResponseToolCalls c toolCalls) # fst (snd ?rec), ui @ snd (snd ?rec))"
    using assms(1) nt assms(3) ex ms
    by (subst runInferenceWithTools_loop.simps)
       (simp add: Let_def split_beta next_history_def)
  show "fst (runInferenceWithTools_loop rt tools sig cb iter msgs) = fst ?rec"
    unfolding unfold by simp
  show "fst (snd (runInferenceWithTools_loop rt tools sig cb iter msgs))
      = (msgs, ResponseToolCalls c toolCalls) # fst (snd ?rec)"
    unfolding unfold by simp
qed

lemma loop_first_turn:
  assumes "iter < MAX_TOOL_ITERATIONS"
    and "now rt (Suc iter) - now rt 0 \<le> MAX_OPERATION_TIME_MS"
  shows "\<exists>turns. fst (snd (runInferenceWithTools_loop rt tools sig cb iter msgs))
           = (msgs, streamInference (JSON_parse rt) sig (inferStream rt iter msgs)) # turns"
proof (cases "streamInference (JSON_parse rt) sig (inferStream rt iter msgs)")
  case (ResponseComplete c)
  with assms show ?thesis
    by (subst runInferenceWithTools_loop.simps) (simp add: Let_def)
next
  case (ResponseError e)
  with assms show ?thesis
    by (subst runInferenceWithTools_loop.simps) (simp add: Let_def)
next
  case (ResponseToolCalls c toolCalls)
  with loop_step(2) [OF assms this] show ?thesis by simp
qed

lemma traced_Cons:
  assumes "traced rt tools sig (Suc k) turns"
    and "response = streamInference (JSON_parse rt) sig (inferStream rt k msgs)"
    and "turns \<noteq> [] \<Longrightarrow> \<exists>c toolCalls. response = ResponseToolCalls c toolCalls \<and>
           fst (hd turns) = next_history (JSON_stringify rt) tools msgs c toolCalls"
  shows "traced rt tools sig k ((msgs, response) # turns)"
proof (cases turns)
  case Nil
  with assms(2) show ?thesis by simp
next
  case (Cons t ts)
  obtain msgs' response' where t: "t = (msgs', response')" by (cases t) auto
  from assms(3) Cons t obtain c toolCalls where resp: "response = ResponseToolCalls c toolCalls"
    and nxt: "msgs' = next_history (JSON_stringify rt) tools msgs c toolCalls"
    by auto
  have model: "streamInference (JSON_parse rt) sig (inferStream rt k msgs)
      = ResponseToolCalls c toolCalls"
    using assms(2) resp by simp
  have "traced rt tools sig k ((msgs, ResponseToolCalls c toolCalls) # (msgs', response') # ts)"
    using assms(1) Cons t nxt model by simp
  then show ?thesis unfolding Cons t resp .
qed

lemma loop_traced:
  "traced rt tools sig iter (fst (snd (runInferenceWithTools_loop rt tools sig cb iter msgs)))"
proof (induction "MAX_TOOL_ITERATIONS - iter" arbitrary: iter msgs)
  case 0
  then have "\<not> iter < MAX_TOOL_ITERATIONS" by simp
  then show ?case by (subst runInferenceWithTools_loop.simps) simp
next
  case (Suc n)
  then have lt: "iter < MAX_TOOL_ITERATIONS" and n: "n = MAX_TOOL_ITERATIONS - Suc iter"
    by simp_all
  let ?resp = "streamInference (JSON_parse rt) sig (inferStream rt iter msgs)"
  show ?case
  proof (cases "now rt (Suc iter) - now rt 0 > MAX_OPERATION_TIME_MS")
    case True
    with lt show ?thesis by (subst runInferenceWithTools_loop.simps) simp
  next
    case False
    then have nt: "now rt (Suc iter) - now rt 0 \<le> MAX_OPERATION_TIME_MS" by simp
    show ?thesis
    proof (cases ?resp)
      case (ResponseComplete c)
      with lt False show ?thesis
        by (subst runInferenceWithTools_loop.simps) (simp add: Let_def)
    next
      case (ResponseError e)
      with lt False show ?thesis
        by (subst runInferenceWithTools_loop.simps) (simp add: Let_def)
    next
      case (ResponseToolCalls c toolCalls)
      let ?next = "next_history (JSON_stringify rt) tools msgs c toolCalls"
      let ?rest = "fst (snd (runInferenceWithTools_loop rt tools sig cb (Suc iter) ?next))"
      have turns: "fst (snd (runInferenceWithTools_loop rt tools sig cb iter msgs))
          = (msgs, ?resp) # ?rest"
        using loop_step(2) [OF lt nt ResponseToolCalls] ResponseToolCalls by simp
      have IH: "traced rt tools sig (Suc iter) ?rest"
        using Suc.hyps(1) [OF n] .
      have head: "\<exists>c' toolCalls'. ?resp = ResponseToolCalls c' toolCalls' \<and>
          fst (hd ?rest) = next_history (JSON_stringify rt) tools msgs c' toolCalls'"
        if "?rest \<noteq> []"
      proof -
        have "Suc iter < MAX_TOOL_ITERATIONS \<and>
            now rt (Suc (Suc iter)) - now rt 0 \<le> MAX_OPERATION_TIME_MS"
        proof (rule ccontr)
          assume "\<not> (Suc iter < MAX_TOOL_ITERATIONS \<and>
            now rt (Suc (Suc iter)) - now rt 0 \<le> MAX_OPERATION_TIME_MS)"
          then have "?rest = []"
            by (subst runInferenceWithTools_loop.simps) auto
          with that show False by simp
        qed
        then obtain more where "?rest = (?next, streamInference (JSON_parse rt) sig
            (inferStream rt (Suc iter) ?next)) # more"
          using loop_first_turn [of "Suc iter" rt tools sig cb ?next] by blast
        then show ?thesis using ResponseToolCalls by simp
      qed
      show ?thesis
        unfolding turns using IH head by (intro traced_Cons) auto
    qed
  qed
qed


text \<open>
  C1. For every batch of tool calls, executeToolCalls returns exactly one result per call,
  in the order of the calls: the i-th result is the result of the i-th call, also for a
  call whose tool is not among the available tools. The tool messages built from the
  results are one per call in the same order, the i-th carrying the id of the i-th call
  and the text of its result. A round of the loop that receives a batch runs the next
  model turn on the old history followed by the assistant message and these tool
  messages, and every run of runInferenceWithTools is such a chain of turns that starts
  with the given history.
\<close>

theorem tool_results_paired:
  "fst (executeToolCalls stringify toolCalls tools cb) = map (tool_result tools) toolCalls \<and>
   tool_messages stringify toolCalls (fst (executeToolCalls stringify toolCalls tools cb)) 0
     = Inr (map (\<lambda>tc. tool_reply stringify tc (tool_result tools tc)) toolCalls) \<and>
   map tool_call_id (map (\<lambda>tc. tool_reply stringify tc (tool_result tools tc)) toolCalls)
     = map (\<lambda>tc. Some (tc_id tc)) toolCalls \<and>
   (iter < MAX_TOOL_ITERATIONS \<and> now rt (Suc iter) - now rt 0 \<le> MAX_OPERATION_TIME_MS \<and>
    streamInference (JSON_parse rt) sig (inferStream rt iter msgs) = ResponseToolCalls c toolCalls
    \<longrightarrow>
      fst (snd (runInferenceWithTools_loop rt tools sig cb iter msgs))
        = (msgs, ResponseToolCalls c toolCalls)
          # fst (snd (runInferenceWithTools_loop rt tools sig cb (Suc iter)
                  (next_history (JSON_stringify rt) tools msgs c toolCalls))) \<and>
      fst (runInferenceWithTools_loop rt tools sig cb iter msgs)
        = fst (runInferenceWithTools_loop rt tools sig cb (Suc iter)
                (next_history (JSON_stringify rt) tools msgs c toolCalls))) \<and>
   traced rt tools sig 0 (fst (snd (runInferenceWithTools rt messages tools sig cb))) \<and>
   (now rt 1 - now rt 0 \<le> MAX_OPERATION_TIME_MS \<longrightarrow>
      fst (snd (runInferenceWithTools rt messages tools sig cb)) \<noteq> [] \<and>
      hd (fst (snd (runInferenceWithTools rt messages tools sig cb)))
        = (messages, streamInference (JSON_parse rt) sig (inferStream rt 0 messages)))"
proof (intro conjI impI)
  show "fst (executeToolCalls stringify toolCalls tools cb) = map (tool_result tools) toolCalls"
    by (rule executeToolCalls_results)
  show "tool_messages stringify toolCalls (fst (executeToolCalls stringify toolCalls tools cb)) 0
     = Inr (map (\<lambda>tc. tool_reply stringify tc (tool_result tools tc)) toolCalls)"
    by (rule tool_messages_of_results)
  show "map tool_call_id (map (\<lambda>tc. tool_reply stringify tc (tool_result tools tc)) toolCalls)
     = map (\<lambda>tc. Some (tc_id tc)) toolCalls"
    by (simp add: tool_reply_def)
  show "traced rt tools sig 0 (fst (snd (runInferenceWithTools rt messages tools sig cb)))"
    unfolding runInferenceWithTools_def by (rule loop_traced)
next
  assume round: "iter < MAX_TOOL_ITERATIONS \<and>
    now rt (Suc iter) - now rt 0 \<le> MAX_OPERATION_TIME_MS \<and>
    streamInference (JSON_parse rt) sig (inferStream rt iter msgs) = ResponseToolCalls c toolCalls"
  then show "fst (snd (runInferenceWithTools_loop rt tools sig cb iter msgs))
        = (msgs, ResponseToolCalls c toolCalls)
          # fst (snd (runInferenceWithTools_loop rt tools sig cb (Suc iter)
                  (next_history (JSON_stringify rt) tools msgs c toolCalls)))"
    using loop_step(2) [of iter rt sig msgs c toolCalls tools cb] by simp
  from round show "fst (runInferenceWithTools_loop rt tools sig cb iter msgs)
        = fst (runInferenceWithTools_loop rt tools sig cb (Suc iter)
                (next_history (JSON_stringify rt) tools msgs c toolCalls))"
    using loop_step(1) [of iter rt sig msgs c toolCalls tools cb] by simp
next
  assume "now rt 1 - now rt 0 \<le> MAX_OPERATION_TIME_MS"
  then obtain turns where turns: "fst (snd (runInferenceWithTools rt messages tools sig cb))
      = (messages, streamInference (JSON_parse rt) sig (inferStream rt 0 messages)) # turns"
    unfolding runInferenceWithTools_def
    using loop_first_turn [of 0 rt tools sig cb messages]
    by (auto simp: MAX_TOOL_ITERATIONS_def)
  then show "fst (snd (runInferenceWithTools rt messages tools sig cb)) \<noteq> []" by simp
  from turns show "hd (fst (snd (runInferenceWithTools rt messages tools sig cb)))
      = (messages, streamInference (JSON_parse rt) sig (inferStream rt 0 messages))" by simp
qed

theorem tool_results_paired_witness:
  "fst (executeToolCalls stringify_braces example_batch [echo_tool, failing_tool] True)
     = [JStr ''hi'', error_result ''Tool not found: missing_tool'', error_result ''disk full''] \<and>
   tool_messages stringify_braces example_batch
       (fst (executeToolCalls stringify_braces example_batch [echo_tool, failing_tool] True)) 0
     = Inr [\<lparr>role = Tool, content = Text ''hi'', tool_calls = None,
              tool_call_id = Some ''call_1''\<rparr>,
            \<lparr>role = Tool, content = Text ''{}'', tool_calls = None,
              tool_call_id = Some ''call_2''\<rparr>,
            \<lparr>role = Tool, content = Text ''{}'', tool_calls = None,
              tool_call_id = Some ''call_3''\<rparr>] \<and>
   streamInference (JSON_parse looping_runtime) ''done''
       (inferStream looping_runtime 0 [older_message])
     = ResponseToolCalls [] [missing_call] \<and>
   take 2 (fst (snd (runInferenceWithTools looping_runtime [older_message]
        [echo_tool, failing_tool] ''done'' True)))
     = [([older_message], ResponseToolCalls [] [missing_call]),
        ([older_message,
          assistant_message stringify_braces [] [missing_call],
          \<lparr>role = Tool, content = Text ''{}'', tool_calls = None,
            tool_call_id = Some ''call_1''\<rparr>],
         ResponseToolCalls [] [missing_call])] \<and>
   traced looping_runtime [echo_tool, failing_tool] ''done'' 0
     (fst (snd (runInferenceWithTools looping_runtime [older_message] [echo_tool, failing_tool]
        ''done'' True)))"
proof -
  note batch = tool_results_paired [of stringify_braces example_batch
      "[echo_tool, failing_tool]" True 0 looping_runtime "''done''" "[older_message]" "[]"
      "[older_message]"]
  have results: "map (tool_result [echo_tool, failing_tool]) example_batch
     = [JStr ''hi'', error_result ''Tool not found: missing_tool'', error_result ''disk full'']"
    by (simp add: tool_result_def example_batch_def echo_tool_def failing_tool_def)
  have replies: "map (\<lambda>tc. tool_reply stringify_braces tc
        (tool_result [echo_tool, failing_tool] tc)) example_batch
     = [\<lparr>role = Tool, content = Text ''hi'', tool_calls = None,
              tool_call_id = Some ''call_1''\<rparr>,
            \<lparr>role = Tool, content = Text ''{}'', tool_calls = None,
              tool_call_id = Some ''call_2''\<rparr>,
            \<lparr>role = Tool, content = Text ''{}'', tool_calls = None,
              tool_call_id = Some ''call_3''\<rparr>]"
    by (simp add: tool_result_def tool_reply_def example_batch_def echo_tool_def
        failing_tool_def error_result_def stringify_braces_def)
  have resp: "\<And>i msgs. streamInference (JSON_parse looping_runtime) ''done''
      (inferStream looping_runtime i msgs) = ResponseToolCalls [] [missing_call]"
    by (simp add: looping_runtime_def streamInference_def missing_call_def)
  have clock: "\<And>i. i < 50 \<Longrightarrow>
      now looping_runtime (Suc i) - now looping_runtime 0 \<le> MAX_OPERATION_TIME_MS"
    by (simp add: looping_runtime_def MAX_OPERATION_TIME_MS_def)
  have next1: "next_history (JSON_stringify looping_runtime) [echo_tool, failing_tool]
      [older_message] [] [missing_call]
     = [older_message, assistant_message stringify_braces [] [missing_call],
        \<lparr>role = Tool, content = Text ''{}'', tool_calls = None,
          tool_call_id = Some ''call_1''\<rparr>]"
    by (simp add: next_history_def tool_reply_def tool_result_def looping_runtime_def
        missing_call_def echo_tool_def failing_tool_def error_result_def stringify_braces_def)
  let ?tools = "[echo_tool, failing_tool]"
  let ?h1 = "next_history (JSON_stringify looping_runtime) ?tools [older_message] [] [missing_call]"
  note first = tool_results_paired [of stringify_braces "[missing_call]" ?tools True 0
      looping_runtime "''done''" "[older_message]" "[]" "[older_message]"]
  note second = tool_results_paired [of stringify_braces "[missing_call]" ?tools True 1
      looping_runtime "''done''" ?h1 "[]" "[older_message]"]
  have t1: "fst (snd (runInferenceWithTools_loop looping_runtime ?tools ''done'' True 0
        [older_message]))
      = ([older_message], ResponseToolCalls [] [missing_call])
        # fst (snd (runInferenceWithTools_loop looping_runtime ?tools ''done'' True (Suc 0) ?h1))"
    using first [THEN conjunct2, THEN conjunct2, THEN conjunct2, THEN conjunct1]
      resp [of 0 "[older_message]"] clock [of 0]
    by (simp add: MAX_TOOL_ITERATIONS_def del: runInferenceWithTools_loop.simps)
  have t2: "fst (snd (runInferenceWithTools_loop looping_runtime ?tools ''done'' True (Suc 0) ?h1))
      = (?h1, ResponseToolCalls [] [missing_call])
        # fst (snd (runInferenceWithTools_loop looping_runtime ?tools ''done'' True (Suc (Suc 0))
            (next_history (JSON_stringify looping_runtime) ?tools ?h1 [] [missing_call])))"
    using second [THEN conjunct2, THEN conjunct2, THEN conjunct2, THEN conjunct1]
      resp [of 1 ?h1] clock [of 1]
    by (simp add: MAX_TOOL_ITERATIONS_def del: runInferenceWithTools_loop.simps)
  have two: "take 2 (fst (snd (runInferenceWithTools looping_runtime [older_message] ?tools
        ''done'' True)))
      = [([older_message], ResponseToolCalls [] [missing_call]),
         (?h1, ResponseToolCalls [] [missing_call])]"
    unfolding runInferenceWithTools_def t1 t2 by (simp add: numeral_2_eq_2)
  have chain: "traced looping_runtime ?tools ''done'' 0
     (fst (snd (runInferenceWithTools looping_runtime [older_message] ?tools ''done'' True)))"
    using batch [THEN conjunct2, THEN conjunct2, THEN conjunct2, THEN conjunct2, THEN conjunct1] .
  have pushed: "fst (executeToolCalls stringify_braces example_batch ?tools True)
     = [JStr ''hi'', error_result ''Tool not found: missing_tool'', error_result ''disk full'']"
    using batch [THEN conjunct1] results by simp
  have built: "tool_messages stringify_braces example_batch
       (fst (executeToolCalls stringify_braces example_batch ?tools True)) 0
     = Inr [\<lparr>role = Tool, content = Text ''hi'', tool_calls = None,
              tool_call_id = Some ''call_1''\<rparr>,
            \<lparr>role = Tool, content = Text ''{}'', tool_calls = None,
              tool_call_id = Some ''call_2''\<rparr>,
            \<lparr>role = Tool, content = Text ''{}'', tool_calls = None,
              tool_call_id = Some ''call_3''\<rparr>]"
    using batch [THEN conjunct2, THEN conjunct1] replies by simp
  show ?thesis
    using pushed built chain two [unfolded next1] resp [of 0 "[older_message]"]
    by (intro conjI) assumption+
qed

lemma streamInference_tool_calls_nonempty:
  "streamInference parse sig incoming = ResponseToolCalls c toolCalls \<Longrightarrow> toolCalls \<noteq> []"
  by (auto simp: streamInference_def split: sum.splits option.splits if_splits prod.splits)



lemma sentinel_frames:
  "concat sentinel_reads = terminated [''data: {}''] @ ''data: [DONE]'' @ newline # []"
  "\<forall>l\<in>set [''data: {}'']. unrecognized parse_nothing l"
  "done_frame ''data: [DONE]''"
  by (simp_all add: sentinel_reads_def terminated_def unrecognized_def done_frame_def
      parse_nothing_def trim_def is_space_def newline_def)

lemma done_frame_no_break_space:
  "done_frame (''data:'' @ [CHR 0xA0] @ ''[DONE]'')"
  "trim ([CHR 0xA0, CHR 0x09] @ ''[DONE]'' @ [CHR 0x0D, CHR 0xA0]) = ''[DONE]''"
  by (simp_all add: done_frame_def trim_def is_space_def newline_def)

lemma unterminated_frames:
  "concat unterminated_reads = terminated [''data: {}''] @ ''data: [DONE]''"
  by (simp add: unterminated_reads_def terminated_def)

lemma streamInference_nothing:
  "streamInference parse sig (Inr ([], None)) = ResponseComplete []"
  "streamInference parse sig (Inr ([CompleteChunk], None)) = ResponseComplete []"
  by (simp_all add: streamInference_def)

lemma sentinel_stream:
  assumes "\<forall>l\<in>set frames. unrecognized parseFrame l" and "done_frame dl"
  shows "concat reads = terminated frames @ dl @ newline # rest \<Longrightarrow>
           createStreamIterator parseFrame reads read_error = ([CompleteChunk], None)"
    and "concat reads = terminated frames @ dl \<Longrightarrow>
           createStreamIterator parseFrame reads None = ([], None)"
proof -
  show "createStreamIterator parseFrame reads read_error = ([CompleteChunk], None)"
    if "concat reads = terminated frames @ dl @ newline # rest"
  proof -
    have "[] @ concat reads = terminated frames @ dl @ newline # rest"
      using that by simp
    then show ?thesis
      unfolding createStreamIterator_def
      using assms by (intro stream_loop_done) simp_all
  qed
  show "createStreamIterator parseFrame reads None = ([], None)"
    if "concat reads = terminated frames @ dl"
  proof -
    have "[] @ concat reads = terminated frames @ dl"
      using that by simp
    moreover have "newline \<notin> set dl" using assms(2) by (simp add: done_frame_def)
    ultimately show ?thesis
      unfolding createStreamIterator_def
      using assms(1) by (intro stream_loop_unterminated) simp_all
  qed
qed

text \<open>
  C7, as the code has it. Take a streamed response (of code units below 256) whose
  line-delimited frames are all unrecognized, followed by the line of the completion
  sentinel \<^verbatim>\<open>[DONE]\<close>, cut into chunks in any way. When a newline ends the sentinel line, createStreamIterator yields
  exactly one completion chunk and returns, streamInference gives a completion with empty
  content and no tool calls, and runInferenceWithTools returns the empty string after one
  model turn, not an error. When the body ends right after the sentinel, with no newline,
  the line stays in the buffer and the generator yields nothing; streamInference still
  gives the completion with empty content.
\<close>

theorem unrecognized_frames_then_done:
  assumes "\<forall>l\<in>set frames. unrecognized parseFrame l"
    and "done_frame dl"
  shows "(concat reads = terminated frames @ dl @ newline # rest \<longrightarrow>
            createStreamIterator parseFrame reads read_error = ([CompleteChunk], None) \<and>
            streamInference parse sig (Inr (createStreamIterator parseFrame reads read_error))
              = ResponseComplete [] \<and>
            (inferStream rt 0 messages = Inr (createStreamIterator parseFrame reads read_error) \<and>
             now rt 1 - now rt 0 \<le> MAX_OPERATION_TIME_MS \<longrightarrow>
               fst (runInferenceWithTools rt messages tools sig cb) = Inr [] \<and>
               length (fst (snd (runInferenceWithTools rt messages tools sig cb))) = 1)) \<and>
         (concat reads = terminated frames @ dl \<longrightarrow>
            createStreamIterator parseFrame reads None = ([], None) \<and>
            streamInference parse sig (Inr (createStreamIterator parseFrame reads None))
              = ResponseComplete [])"
proof (intro conjI impI)
  assume ended: "concat reads = terminated frames @ dl @ newline # rest"
  show it: "createStreamIterator parseFrame reads read_error = ([CompleteChunk], None)"
    using sentinel_stream(1) [OF assms ended] .
  then show "streamInference parse sig (Inr (createStreamIterator parseFrame reads read_error))
      = ResponseComplete []"
    by (simp add: streamInference_nothing)
  assume "inferStream rt 0 messages = Inr (createStreamIterator parseFrame reads read_error) \<and>
      now rt 1 - now rt 0 \<le> MAX_OPERATION_TIME_MS"
  then have run: "fst (runInferenceWithTools rt messages tools sig cb) = Inr [] \<and>
      length (fst (snd (runInferenceWithTools rt messages tools sig cb))) = 1"
    using it
    by (simp add: runInferenceWithTools_def MAX_TOOL_ITERATIONS_def Let_def
        streamInference_nothing)
  from run show "fst (runInferenceWithTools rt messages tools sig cb) = Inr []" by simp
  from run show "length (fst (snd (runInferenceWithTools rt messages tools sig cb))) = 1"
    by simp
next
  assume cut: "concat reads = terminated frames @ dl"
  show it: "createStreamIterator parseFrame reads None = ([], None)"
    using sentinel_stream(2) [OF assms cut] .
  then show "streamInference parse sig (Inr (createStreamIterator parseFrame reads None))
      = ResponseComplete []"
    by (simp add: streamInference_nothing)
qed

theorem unrecognized_frames_then_done_witness:
  "concat sentinel_reads = ''data: {}'' @ [newline] @ ''data: [DONE]'' @ [newline] \<and>
   unrecognized parse_nothing ''data: {}'' \<and>
   done_frame ''data: [DONE]'' \<and>
   createStreamIterator parse_nothing sentinel_reads None = ([CompleteChunk], None) \<and>
   streamInference (JSON_parse sentinel_runtime) ''done''
     (Inr (createStreamIterator parse_nothing sentinel_reads None)) = ResponseComplete [] \<and>
   fst (runInferenceWithTools sentinel_runtime [older_message] [echo_tool] ''done'' True) = Inr [] \<and>
   length (fst (snd (runInferenceWithTools sentinel_runtime [older_message] [echo_tool] ''done'' True)))
     = 1 \<and>
   concat unterminated_reads = ''data: {}'' @ [newline] @ ''data: [DONE]'' \<and>
   streamInference (JSON_parse sentinel_runtime) ''done''
     (Inr (createStreamIterator parse_nothing unterminated_reads None)) = ResponseComplete []"
proof -
  have joined: "concat sentinel_reads = ''data: {}'' @ [newline] @ ''data: [DONE]'' @ [newline]"
    by (simp add: sentinel_reads_def)
  have cut: "concat unterminated_reads = ''data: {}'' @ [newline] @ ''data: [DONE]''"
    by (simp add: unterminated_reads_def)
  have rt: "inferStream sentinel_runtime 0 [older_message]
      = Inr (createStreamIterator parse_nothing sentinel_reads None) \<and>
     now sentinel_runtime 1 - now sentinel_runtime 0 \<le> MAX_OPERATION_TIME_MS"
    by (simp add: sentinel_runtime_def MAX_OPERATION_TIME_MS_def)
  note run = unrecognized_frames_then_done [OF sentinel_frames(2,3), of sentinel_reads "[]" None
      "JSON_parse sentinel_runtime" "''done''" sentinel_runtime "[older_message]" "[echo_tool]" True]
  note dropped = unrecognized_frames_then_done [OF sentinel_frames(2,3), of unterminated_reads
      "[]" None "JSON_parse sentinel_runtime" "''done''" sentinel_runtime "[older_message]"
      "[echo_tool]" True]
  from run sentinel_frames(1)
  have iterator: "createStreamIterator parse_nothing sentinel_reads None = ([CompleteChunk], None)"
    by blast
  from run sentinel_frames(1)
  have response: "streamInference (JSON_parse sentinel_runtime) ''done''
      (Inr (createStreamIterator parse_nothing sentinel_reads None)) = ResponseComplete []"
    by blast
  from run sentinel_frames(1) rt
  have loop: "fst (runInferenceWithTools sentinel_runtime [older_message] [echo_tool]
        ''done'' True) = Inr [] \<and>
      length (fst (snd (runInferenceWithTools sentinel_runtime [older_message] [echo_tool]
        ''done'' True))) = 1"
    by blast
  from dropped unterminated_frames
  have quiet: "streamInference (JSON_parse sentinel_runtime) ''done''
      (Inr (createStreamIterator parse_nothing unterminated_reads None)) = ResponseComplete []"
    by blast
  show ?thesis
    using iterator response loop quiet sentinel_frames(2,3) joined cut
    by (intro conjI) simp_all
qed

text \<open>
  The claim as stated fails where the body ends with the sentinel and no newline: all
  frames before it are unrecognized, the sentinel line is there, and no completion chunk
  is yielded.
\<close>

theorem unterminated_sentinel_counterexample:
  "concat unterminated_reads = ''data: {}'' @ [newline] @ ''data: [DONE]'' \<and>
   unrecognized parse_nothing ''data: {}'' \<and>
   done_frame ''data: [DONE]'' \<and>
   createStreamIterator parse_nothing unterminated_reads None = ([], None) \<and>
   createStreamIterator parse_nothing unterminated_reads None \<noteq> ([CompleteChunk], None)"
proof -
  have "createStreamIterator parse_nothing unterminated_reads None = ([], None)"
    using sentinel_stream(2) [OF sentinel_frames(2,3) unterminated_frames] .
  then show ?thesis
    using sentinel_frames(2,3) by (simp add: unterminated_reads_def)
qed

section \<open>executeToolCall\<close>

lemma tool_failed_result:
  "fst (tool_failed core d sid toolCall error) =
     (case logToolExecution_rejects core (failure_record d sid toolCall error) of
        Some rejection \<Rightarrow> Inl rejection
      | None \<Rightarrow> Inr \<lparr>success = False, data = None,
                     result_error = Some (message_or ''Tool execution failed'' error),
                     executionTime = d\<rparr>)"
  by (simp add: tool_failed_def failure_record_def Let_def split: option.splits)

lemma tool_failed_throws:
  "fst (tool_failed core d sid toolCall error) = Inl e \<Longrightarrow>
   \<exists>entry. \<not> log_success entry \<and> logToolExecution_rejects core entry = Some e"
proof -
  assume thrown: "fst (tool_failed core d sid toolCall error) = Inl e"
  have "logToolExecution_rejects core (failure_record d sid toolCall error) = Some e"
    using thrown by (simp add: tool_failed_result split: option.splits)
  moreover have "\<not> log_success (failure_record d sid toolCall error)"
    by (simp add: failure_record_def)
  ultimately show ?thesis by blast
qed

lemma executeToolCall_throws:
  assumes "fst (executeToolCall stringify core startTime tryTime catchTime sid toolCall) = Inl e"
  shows "(activeSessions core sid = None \<and> e = ErrorObj (''Session not found: '' @ sid)) \<or>
         (\<exists>entry. \<not> log_success entry \<and> logToolExecution_rejects core entry = Some e)"
proof (cases "activeSessions core sid")
  case None
  with assms show ?thesis by (simp add: executeToolCall_def)
next
  case (Some r)
  with assms have "\<exists>d err. fst (tool_failed core d sid toolCall err) = Inl e"
    by (auto simp: executeToolCall_def Let_def
        split: option.splits tool_outcome.splits toolkit_property.splits)
  then show ?thesis using tool_failed_throws by blast
qed

lemma executeToolCall_unknown_name:
  assumes "activeSessions core sid = Some r"
    and "toolkit core (tc_name toolCall) = None"
    and "tc_name toolCall \<notin> set object_prototype_names"
  shows "fst (executeToolCall stringify core startTime tryTime catchTime sid toolCall)
           = fst (tool_failed core (catchTime - startTime) sid toolCall
                    (ErrorObj (''Unknown tool: '' @ tc_name toolCall)))"
  using assms by (simp add: executeToolCall_def toolkit_lookup_def)

text \<open>
  C3, as the code has it. For a live session and a tool call whose name is neither
  registered in the toolkit nor the name of a property that every object inherits,
  executeToolCall returns a ToolResult with success = false and the error
  \<^verbatim>\<open>Unknown tool: <name>\<close>, and for an unknown session id it throws
  \<^verbatim>\<open>Session not found: <id>\<close>. As long as the analytics collector accepts the record
  of a failed execution, the unknown session id is the only condition under which
  executeToolCall throws.
\<close>

theorem executeToolCall_unknown_tool:
  "(activeSessions core sid = Some r \<and> toolkit core (tc_name toolCall) = None \<and>
    tc_name toolCall \<notin> set object_prototype_names \<and>
    logToolExecution_rejects core
      (failure_record (catchTime - startTime) sid toolCall
         (ErrorObj (''Unknown tool: '' @ tc_name toolCall))) = None
    \<longrightarrow> fst (executeToolCall stringify core startTime tryTime catchTime sid toolCall)
          = Inr \<lparr>success = False, data = None,
                 result_error = Some (''Unknown tool: '' @ tc_name toolCall),
                 executionTime = catchTime - startTime\<rparr>) \<and>
   (activeSessions core sid = None
    \<longrightarrow> fst (executeToolCall stringify core startTime tryTime catchTime sid toolCall)
          = Inl (ErrorObj (''Session not found: '' @ sid))) \<and>
   ((\<forall>entry. \<not> log_success entry \<longrightarrow> logToolExecution_rejects core entry = None) \<and>
    fst (executeToolCall stringify core startTime tryTime catchTime sid toolCall) = Inl e
    \<longrightarrow> activeSessions core sid = None \<and> e = ErrorObj (''Session not found: '' @ sid))"
proof (intro conjI impI)
  assume "activeSessions core sid = Some r \<and> toolkit core (tc_name toolCall) = None \<and>
    tc_name toolCall \<notin> set object_prototype_names \<and>
    logToolExecution_rejects core
      (failure_record (catchTime - startTime) sid toolCall
         (ErrorObj (''Unknown tool: '' @ tc_name toolCall))) = None"
  then show "fst (executeToolCall stringify core startTime tryTime catchTime sid toolCall)
          = Inr \<lparr>success = False, data = None,
                 result_error = Some (''Unknown tool: '' @ tc_name toolCall),
                 executionTime = catchTime - startTime\<rparr>"
    by (simp add: executeToolCall_unknown_name tool_failed_result)
next
  assume "activeSessions core sid = None"
  then show "fst (executeToolCall stringify core startTime tryTime catchTime sid toolCall)
          = Inl (ErrorObj (''Session not found: '' @ sid))"
    by (simp add: executeToolCall_def)
next
  assume h: "(\<forall>entry. \<not> log_success entry \<longrightarrow> logToolExecution_rejects core entry = None) \<and>
    fst (executeToolCall stringify core startTime tryTime catchTime sid toolCall) = Inl e"
  then have "(activeSessions core sid = None \<and> e = ErrorObj (''Session not found: '' @ sid)) \<or>
         (\<exists>entry. \<not> log_success entry \<and> logToolExecution_rejects core entry = Some e)"
    using executeToolCall_throws by blast
  with h have both: "activeSessions core sid = None \<and> e = ErrorObj (''Session not found: '' @ sid)"
    by auto
  from both show "activeSessions core sid = None" by simp
  from both show "e = ErrorObj (''Session not found: '' @ sid)" by simp
qed

lemma todo_core_live: "activeSessions todo_core ''s1'' = Some 0"
  by (simp add: todo_core_def initializeSession_def createAgentCore_def createSession_def Let_def)

lemma unlogged_core_live: "activeSessions unlogged_core ''s1'' = Some 0"
  by (simp add: unlogged_core_def initializeSession_def createAgentCore_def createSession_def Let_def)

lemma todo_core_fields:
  "toolkit todo_core = Map.empty" "logToolExecution_rejects todo_core = accepts_all"
  "emitted todo_core = []" "timers todo_core = []"
  "objects todo_core 0 = \<lparr>session_id = ''s1'', session_context =
       \<lparr>sessionId = ''s1'', userId = ''u1'', projectId = ''p1'', status = INITIALIZING,
        mode = AGENTIC, phase = ANALYSIS, iteration = 0, prompt = ''build a todo app'',
        blueprint = None, conversationHistory = []\<rparr>, isTerminated = False\<rparr>"
  "behaviors todo_core AGENTIC = Some quiet_behavior"
  by (simp_all add: todo_core_def initializeSession_def createAgentCore_def createSession_def Let_def)

lemma unlogged_core_fields:
  "toolkit unlogged_core = Map.empty" "logToolExecution_rejects unlogged_core = rejects_all"
  by (simp_all add: unlogged_core_def initializeSession_def createAgentCore_def createSession_def
      Let_def)

lemma deploy_not_inherited: "tc_name deploy_call \<notin> set object_prototype_names"
  by (simp add: deploy_call_def object_prototype_names_def)

theorem executeToolCall_unknown_tool_witness:
  "activeSessions todo_core ''s1'' = Some 0 \<and> toolkit todo_core (tc_name deploy_call) = None \<and>
   tc_name deploy_call \<notin> set object_prototype_names \<and>
   fst (executeToolCall stringify_braces todo_core 100 120 130 ''s1'' deploy_call)
     = Inr \<lparr>success = False, data = None, result_error = Some ''Unknown tool: deploy'',
            executionTime = 30\<rparr> \<and>
   activeSessions todo_core ''s2'' = None \<and>
   fst (executeToolCall stringify_braces todo_core 100 120 130 ''s2'' deploy_call)
     = Inl (ErrorObj ''Session not found: s2'')"
proof -
  have none: "activeSessions todo_core ''s2'' = None"
    by (simp add: todo_core_def initializeSession_def createAgentCore_def createSession_def Let_def)
  have accepted: "logToolExecution_rejects todo_core
      (failure_record (130 - 100) ''s1'' deploy_call
         (ErrorObj (''Unknown tool: '' @ tc_name deploy_call))) = None"
    by (simp add: todo_core_fields accepts_all_def)
  have quiet: "\<forall>entry. \<not> log_success entry \<longrightarrow> logToolExecution_rejects todo_core entry = None"
    by (simp add: todo_core_fields accepts_all_def)
  note live = executeToolCall_unknown_tool [of todo_core "''s1''" 0 deploy_call 130 100
      stringify_braces 120]
  note gone = executeToolCall_unknown_tool [of todo_core "''s2''" 0 deploy_call 130 100
      stringify_braces 120 "ErrorObj ''Session not found: s2''"]
  have answered: "fst (executeToolCall stringify_braces todo_core 100 120 130 ''s1'' deploy_call)
     = Inr \<lparr>success = False, data = None, result_error = Some ''Unknown tool: deploy'',
            executionTime = 30\<rparr>"
    using live todo_core_live accepted deploy_not_inherited
    by (simp add: todo_core_fields deploy_call_def)
  have thrown: "fst (executeToolCall stringify_braces todo_core 100 120 130 ''s2'' deploy_call)
     = Inl (ErrorObj ''Session not found: s2'')"
    using gone none quiet by simp
  show ?thesis
    using answered thrown todo_core_live none deploy_not_inherited
    by (simp add: todo_core_fields)
qed

text \<open>
  The claim as stated fails on the message: for a live session and the unregistered tool
  name \<^verbatim>\<open>deploy\<close> the error is \<^verbatim>\<open>Unknown tool: deploy\<close>, not
  \<^verbatim>\<open>Tool not found: deploy\<close>.
\<close>

theorem executeToolCall_message_counterexample:
  "activeSessions todo_core ''s1'' = Some 0 \<and> toolkit todo_core (tc_name deploy_call) = None \<and>
   fst (executeToolCall stringify_braces todo_core 100 120 130 ''s1'' deploy_call)
     = Inr \<lparr>success = False, data = None, result_error = Some ''Unknown tool: deploy'',
            executionTime = 30\<rparr> \<and>
   ''Unknown tool: deploy'' \<noteq> ''Tool not found: deploy''"
proof -
  have "fst (executeToolCall stringify_braces todo_core 100 120 130 ''s1'' deploy_call)
     = Inr \<lparr>success = False, data = None, result_error = Some ''Unknown tool: deploy'',
            executionTime = 30\<rparr>"
    using executeToolCall_unknown_name [OF todo_core_live _ deploy_not_inherited,
        of stringify_braces 100 120 130]
    by (simp add: tool_failed_result todo_core_fields accepts_all_def failure_record_def
        deploy_call_def)
  then show ?thesis
    using todo_core_live by (simp add: todo_core_fields)
qed

text \<open>
  Two runs of the code outside the cases above. The name of an inherited property passes
  the check of the lookup, and the call of its missing \<^verbatim>\<open>execute\<close> is what fails.
  With a collector that rejects the record of the failure, the rejection leaves the
  \<^verbatim>\<open>catch\<close> block.
\<close>

lemma executeToolCall_inherited_name:
  "fst (executeToolCall stringify_braces todo_core 100 120 130 ''s1'' toString_call)
     = Inr \<lparr>success = False, data = None,
            result_error = Some ''tool.execute is not a function'', executionTime = 30\<rparr>"
  by (simp add: executeToolCall_def toolkit_lookup_def object_prototype_names_def
      tool_failed_result failure_record_def todo_core_live todo_core_fields accepts_all_def
      toString_call_def)

lemma executeToolCall_rejected_record:
  "fst (executeToolCall stringify_braces unlogged_core 100 120 130 ''s1'' deploy_call)
     = Inl (ErrorObj ''analytics down'')"
  using executeToolCall_unknown_name [OF unlogged_core_live _ deploy_not_inherited,
      of stringify_braces 100 120 130]
  by (simp add: tool_failed_result unlogged_core_fields rejects_all_def)

section \<open>terminateSession\<close>

lemma terminateSession_live:
  "activeSessions core sid = Some r \<Longrightarrow>
   terminateSession core sid reason =
     core\<lparr>objects := (objects core)(r := (objects core r)\<lparr>isTerminated := True\<rparr>),
          emitted := emitted core @ [(session_id (objects core r), TerminatedEvent reason)],
          activeSessions := (activeSessions core)(sid := None),
          stored_statuses := (stored_statuses core)(sid \<mapsto> (TERMINATED, reason))\<rparr>"
  by (simp add: terminateSession_def terminate_def emit_def updateSessionStatus_def Let_def)

lemma terminateSession_not_live:
  "activeSessions core sid = None \<Longrightarrow>
   terminateSession core sid reason =
     core\<lparr>stored_statuses := (stored_statuses core)(sid \<mapsto> (TERMINATED, reason))\<rparr>"
  by (simp add: terminateSession_def updateSessionStatus_def)

lemma terminateSession_removes:
  "activeSessions (terminateSession core sid reason) sid = None"
  by (cases "activeSessions core sid") (simp_all add: terminateSession_live terminateSession_not_live)

lemma terminateSession_persists:
  "stored_statuses (terminateSession core sid reason) sid = Some (TERMINATED, reason)"
  by (cases "activeSessions core sid") (simp_all add: terminateSession_live terminateSession_not_live)

text \<open>
  C9. terminateSession is idempotent: for every session id, calling it twice with the
  same reason leaves the same state as calling it once. After the call the id is not in
  the live-session map and the persisted status is TERMINATED with the reason; a session
  that was live has its flag set and has emitted one terminated event. The second call
  finds no live session, emits nothing and writes the same status again.
\<close>

theorem terminateSession_idempotent:
  "terminateSession (terminateSession core sid reason) sid reason
     = terminateSession core sid reason \<and>
   activeSessions (terminateSession core sid reason) sid = None \<and>
   stored_statuses (terminateSession core sid reason) sid = Some (TERMINATED, reason) \<and>
   (\<forall>r. activeSessions core sid = Some r \<longrightarrow>
      isTerminated (objects (terminateSession core sid reason) r) \<and>
      emitted (terminateSession core sid reason)
        = emitted core @ [(session_id (objects core r), TerminatedEvent reason)])"
proof -
  let ?once = "terminateSession core sid reason"
  have gone: "activeSessions ?once sid = None" by (rule terminateSession_removes)
  have kept: "stored_statuses ?once sid = Some (TERMINATED, reason)"
    by (rule terminateSession_persists)
  have "terminateSession ?once sid reason
      = ?once\<lparr>stored_statuses := (stored_statuses ?once)(sid \<mapsto> (TERMINATED, reason))\<rparr>"
    using gone by (rule terminateSession_not_live)
  also have "(stored_statuses ?once)(sid \<mapsto> (TERMINATED, reason)) = stored_statuses ?once"
    using kept by (simp add: map_upd_triv)
  finally have twice: "terminateSession ?once sid reason = ?once" by simp
  have live: "isTerminated (objects ?once r) \<and>
      emitted ?once = emitted core @ [(session_id (objects core r), TerminatedEvent reason)]"
    if "activeSessions core sid = Some r" for r
    using that by (simp add: terminateSession_live)
  from twice gone kept live show ?thesis by blast
qed

theorem terminateSession_idempotent_witness:
  "activeSessions todo_core ''s1'' = Some 0 \<and>
   terminateSession (terminateSession todo_core ''s1'' (Some ''user left'')) ''s1'' (Some ''user left'')
     = terminateSession todo_core ''s1'' (Some ''user left'') \<and>
   activeSessions (terminateSession todo_core ''s1'' (Some ''user left'')) ''s1'' = None \<and>
   stored_statuses (terminateSession todo_core ''s1'' (Some ''user left'')) ''s1''
     = Some (TERMINATED, Some ''user left'') \<and>
   isTerminated (objects (terminateSession todo_core ''s1'' (Some ''user left'')) 0) \<and>
   emitted (terminateSession todo_core ''s1'' (Some ''user left''))
     = [(''s1'', TerminatedEvent (Some ''user left''))]"
  using terminateSession_idempotent [of todo_core "''s1''" "Some ''user left''"] todo_core_live
  by (simp add: todo_core_fields)

section \<open>Events after termination\<close>

lemma stream_after_terminate: "stream (terminate core r reason) r chunk = terminate core r reason"
  by (simp add: stream_def terminate_def emit_def Let_def)

lemma complete_after_terminate: "complete (terminate core r reason) r = terminate core r reason"
  by (simp add: complete_def terminate_def emit_def Let_def)

text \<open>
  C5. What the code does once terminate has run: stream and complete see the flag and
  leave the state as it is, and fail, which has no such check, sets the status and emits
  an error event after the terminated event.
\<close>

theorem fail_emits_after_terminate:
  "emitted (fail (terminate core r reason) r error)
     = emitted core @ [(session_id (objects core r), TerminatedEvent reason),
                       (session_id (objects core r),
                        ErrorEvent (case error of ErrorObj m \<Rightarrow> Some m | NonError v \<Rightarrow> None))] \<and>
   isTerminated (objects (fail (terminate core r reason) r error) r) \<and>
   stream (terminate core r reason) r chunk = terminate core r reason \<and>
   complete (terminate core r reason) r = terminate core r reason"
  by (simp add: stream_after_terminate complete_after_terminate)
     (simp add: fail_def terminate_def emit_def set_context_def the_context_def Let_def)

text \<open>
  A chunk streamed before the termination is emitted after it, when its timer fires.
\<close>

lemma pending_stream_emits_after_terminate:
  "\<not> isTerminated (objects core r) \<Longrightarrow> timers core = [] \<Longrightarrow>
   emitted (fire_timer (terminate (stream core r chunk) r reason))
     = emitted core @ [(session_id (objects core r), TerminatedEvent reason),
                       (session_id (objects core r), StreamEvent chunk)]"
  by (simp add: fire_timer_def terminate_def stream_def emit_def Let_def)

theorem fail_after_terminate_example:
  "emitted (fail (terminate todo_core 0 (Some ''user left'')) 0 (ErrorObj ''boom''))
     = [(''s1'', TerminatedEvent (Some ''user left'')), (''s1'', ErrorEvent (Some ''boom''))]"
  using fail_emits_after_terminate [of todo_core 0 "Some ''user left''" "ErrorObj ''boom''"]
  by (simp add: todo_core_fields)

section \<open>processSession\<close>

lemma phase_events_append:
  "phase_events sid (xs @ ys) = phase_events sid xs @ phase_events sid ys"
  by (induction sid xs rule: phase_events.induct) auto

lemma stream_fold_frame:
  "emitted (foldl (\<lambda>k chunk. stream k r chunk) core chunks) = emitted core \<and>
   objects (foldl (\<lambda>k chunk. stream k r chunk) core chunks) = objects core \<and>
   activeSessions (foldl (\<lambda>k chunk. stream k r chunk) core chunks) = activeSessions core \<and>
   behaviors (foldl (\<lambda>k chunk. stream k r chunk) core chunks) = behaviors core"
  by (induction chunks arbitrary: core) (simp_all add: stream_def)

lemma quiet_analysis: "quiet_step r (analysis_body b r)"
  unfolding quiet_step_def
proof
  fix core :: AgentCore
  show "\<exists>evs. emitted (snd (analysis_body b r core)) = emitted core @ evs \<and>
        phase_events (session_id (objects core r)) evs = [] \<and>
        unframed r core (snd (analysis_body b r core))"
  proof (cases "generateBlueprint b (the_context core r)")
    case (Pair res ctx)
    show ?thesis
    proof (cases res)
      case (Inl error)
      with Pair have "emitted (snd (analysis_body b r core)) = emitted core @ [] \<and>
          phase_events (session_id (objects core r)) [] = [] \<and>
          unframed r core (snd (analysis_body b r core))"
        by (simp add: analysis_body_def set_context_def unframed_def)
      then show ?thesis by blast
    next
      case (Inr plan)
      with Pair have "emitted (snd (analysis_body b r core))
            = emitted core @ [(session_id (objects core r), BlueprintEvent (Some plan))] \<and>
          phase_events (session_id (objects core r))
            [(session_id (objects core r), BlueprintEvent (Some plan))] = [] \<and>
          unframed r core (snd (analysis_body b r core))"
        by (simp add: analysis_body_def set_context_def the_context_def emit_def unframed_def Let_def)
      then show ?thesis by blast
    qed
  qed
qed

lemma quiet_setup: "quiet_step r (setup_body b r)"
  unfolding quiet_step_def
proof
  fix core :: AgentCore
  have "emitted (snd (setup_body b r core)) = emitted core @ [] \<and>
        phase_events (session_id (objects core r)) [] = [] \<and>
        unframed r core (snd (setup_body b r core))"
    by (simp add: setup_body_def set_context_def unframed_def split_beta)
  then show "\<exists>evs. emitted (snd (setup_body b r core)) = emitted core @ evs \<and>
        phase_events (session_id (objects core r)) evs = [] \<and>
        unframed r core (snd (setup_body b r core))" by blast
qed

lemma quiet_deployment: "quiet_step r (deployment_body b r)"
  unfolding quiet_step_def
proof
  fix core :: AgentCore
  have "emitted (snd (deployment_body b r core)) = emitted core @ [] \<and>
        phase_events (session_id (objects core r)) [] = [] \<and>
        unframed r core (snd (deployment_body b r core))"
    by (simp add: deployment_body_def set_context_def unframed_def split_beta)
  then show "\<exists>evs. emitted (snd (deployment_body b r core)) = emitted core @ evs \<and>
        phase_events (session_id (objects core r)) evs = [] \<and>
        unframed r core (snd (deployment_body b r core))" by blast
qed

lemma quiet_implementation: "quiet_step r (implementation_body b r)"
  unfolding quiet_step_def
proof
  fix core :: AgentCore
  have "emitted (snd (implementation_body b r core)) = emitted core @ [] \<and>
        phase_events (session_id (objects core r)) [] = [] \<and>
        unframed r core (snd (implementation_body b r core))"
    by (simp add: implementation_body_def set_context_def unframed_def split_beta Let_def
        stream_fold_frame)
  then show "\<exists>evs. emitted (snd (implementation_body b r core)) = emitted core @ evs \<and>
        phase_events (session_id (objects core r)) evs = [] \<and>
        unframed r core (snd (implementation_body b r core))" by blast
qed

lemma quiet_handlePostReview: "quiet_step r (handlePostReview r analysis)"
  unfolding quiet_step_def
proof
  fix core :: AgentCore
  let ?sid = "session_id (objects core r)"
  consider (passed) "length (issues analysis) = 0"
    | (found) "length (issues analysis) \<noteq> 0"
    by blast
  then show "\<exists>evs. emitted (snd (handlePostReview r analysis core)) = emitted core @ evs \<and>
        phase_events ?sid evs = [] \<and> unframed r core (snd (handlePostReview r analysis core))"
  proof cases
    case passed
    then have "emitted (snd (handlePostReview r analysis core)) = emitted core @ [(?sid, ReviewPassed)] \<and>
        phase_events ?sid [(?sid, ReviewPassed)] = [] \<and>
        unframed r core (snd (handlePostReview r analysis core))"
      by (simp add: handlePostReview_def emit_def unframed_def)
    then show ?thesis by blast
  next
    case found
    then have "emitted (snd (handlePostReview r analysis core))
          = emitted core @ [(?sid, ReviewIssuesFound (issues analysis) (suggestions analysis))] \<and>
        phase_events ?sid [(?sid, ReviewIssuesFound (issues analysis) (suggestions analysis))] = [] \<and>
        unframed r core (snd (handlePostReview r analysis core))"
      by (simp add: handlePostReview_def emit_def unframed_def set_context_def the_context_def
          Let_def split_beta split: option.splits)
    then show ?thesis by blast
  qed
qed

lemma quiet_review: "quiet_step r (review_body b r)"
  unfolding quiet_step_def
proof
  fix core :: AgentCore
  let ?sid = "session_id (objects core r)"
  show "\<exists>evs. emitted (snd (review_body b r core)) = emitted core @ evs \<and>
        phase_events ?sid evs = [] \<and> unframed r core (snd (review_body b r core))"
  proof (cases "reviewProject b (the_context core r)")
    case (Pair res ctx)
    show ?thesis
    proof (cases res)
      case (Inl error)
      with Pair have "emitted (snd (review_body b r core)) = emitted core @ [] \<and>
          phase_events ?sid [] = [] \<and> unframed r core (snd (review_body b r core))"
        by (simp add: review_body_def set_context_def unframed_def)
      then show ?thesis by blast
    next
      case (Inr analysis)
      let ?core1 = "set_context core r ctx"
      from Pair Inr have eq: "review_body b r core = handlePostReview r analysis ?core1"
        by (simp add: review_body_def)
      obtain evs where "emitted (snd (handlePostReview r analysis ?core1)) = emitted ?core1 @ evs"
        "phase_events (session_id (objects ?core1 r)) evs = []"
        "unframed r ?core1 (snd (handlePostReview r analysis ?core1))"
        using quiet_handlePostReview [of r analysis] unfolding quiet_step_def by blast
      then have "emitted (snd (review_body b r core)) = emitted core @ evs \<and>
          phase_events ?sid evs = [] \<and> unframed r core (snd (review_body b r core))"
        unfolding eq by (simp add: set_context_def unframed_def)
      then show ?thesis by blast
    qed
  qed
qed

lemma unframed_trans: "unframed r a b \<Longrightarrow> unframed r b c \<Longrightarrow> unframed r a c"
  by (simp add: unframed_def)

lemma runPhase_returns:
  assumes quiet: "quiet_step r body" and ok: "fst (runPhase r p body core) = None"
  shows "\<exists>evs. emitted (snd (runPhase r p body core)) = emitted core @ evs \<and>
           phase_events (session_id (objects core r)) evs = [(p, Started), (p, Completed)] \<and>
           unframed r core (snd (runPhase r p body core))"
proof -
  let ?sid = "session_id (objects core r)"
  let ?core1 = "set_context core r ((the_context core r)\<lparr>phase := p, status := PROCESSING\<rparr>)"
  let ?core2 = "updateSession ?core1 (the_context ?core1 r)"
  let ?core3 = "emit ?core2 (session_id (objects ?core2 r)) (PhaseEvent p Started)"
  have start: "emitted ?core3 = emitted core @ [(?sid, PhaseEvent p Started)]"
    and frame3: "unframed r core ?core3"
    by (simp_all add: emit_def updateSession_def set_context_def unframed_def)
  obtain thrown core4 where body: "body ?core3 = (thrown, core4)"
    by (cases "body ?core3") auto
  have unfold: "runPhase r p body core =
      (case body ?core3 of
         (None, core4) \<Rightarrow> (None, emit core4 (session_id (objects core4 r)) (PhaseEvent p Completed))
       | (Some error, core4) \<Rightarrow>
           (Some error, emit core4 (session_id (objects core4 r))
              (PhaseEvent p (PhaseFailed (message_or ''Unknown error'' error)))))"
    by (simp add: runPhase_def Let_def)
  have none: "thrown = None"
    using ok body unfolding unfold by (cases thrown) simp_all
  obtain evs where evs: "emitted core4 = emitted ?core3 @ evs"
    and silent: "phase_events (session_id (objects ?core3 r)) evs = []"
    and frame4: "unframed r ?core3 core4"
    using quiet body unfolding quiet_step_def by (metis snd_conv)
  have sid3: "session_id (objects ?core3 r) = ?sid" and sid4: "session_id (objects core4 r) = ?sid"
    using frame3 frame4 by (simp_all add: unframed_def)
  have result: "snd (runPhase r p body core) = emit core4 ?sid (PhaseEvent p Completed)"
    unfolding unfold using body none sid4 by simp
  have "emitted (snd (runPhase r p body core))
      = emitted core @ ([(?sid, PhaseEvent p Started)] @ evs @ [(?sid, PhaseEvent p Completed)])"
    unfolding result using evs start by (simp add: emit_def)
  moreover have "phase_events ?sid ([(?sid, PhaseEvent p Started)] @ evs @ [(?sid, PhaseEvent p Completed)])
      = [(p, Started), (p, Completed)]"
    using silent sid3 by (simp add: phase_events_append)
  moreover have "unframed r core (snd (runPhase r p body core))"
    unfolding result using frame3 frame4 by (simp add: unframed_def emit_def)
  ultimately show ?thesis by blast
qed

lemma runPhase_deployment_phase:
  assumes "\<forall>ctx. phase (snd (prepareDeployment b ctx)) = phase ctx"
  shows "phase (the_context (snd (runPhase r DEPLOYMENT (deployment_body b r) core)) r) = DEPLOYMENT"
proof -
  let ?core1 = "set_context core r ((the_context core r)\<lparr>phase := DEPLOYMENT, status := PROCESSING\<rparr>)"
  let ?core2 = "updateSession ?core1 (the_context ?core1 r)"
  let ?core3 = "emit ?core2 (session_id (objects ?core2 r)) (PhaseEvent DEPLOYMENT Started)"
  have ctx3: "the_context ?core3 r = (the_context core r)\<lparr>phase := DEPLOYMENT, status := PROCESSING\<rparr>"
    by (simp add: emit_def updateSession_def set_context_def the_context_def)
  obtain thrown ctx where dep: "prepareDeployment b (the_context ?core3 r) = (thrown, ctx)"
    by (cases "prepareDeployment b (the_context ?core3 r)") auto
  have "phase (snd (prepareDeployment b (the_context ?core3 r))) = phase (the_context ?core3 r)"
    using assms by blast
  then have "phase ctx = DEPLOYMENT"
    using dep ctx3 by simp
  moreover have "the_context (snd (runPhase r DEPLOYMENT (deployment_body b r) core)) r = ctx"
    using dep
    by (cases thrown)
       (simp_all add: runPhase_def deployment_body_def Let_def emit_def set_context_def
          the_context_def)
  ultimately show ?thesis by simp
qed

lemma and_then_returns:
  "fst (and_then x f) = None \<Longrightarrow> fst x = None \<and> and_then x f = f (snd x)"
  by (cases x) (auto simp: and_then_def split: option.splits)

lemma run_phases_returns:
  assumes ok: "fst (run_phases b r core) = None"
  shows "\<exists>evs. emitted (snd (run_phases b r core)) = emitted core @ evs \<and>
           phase_events (session_id (objects core r)) evs = all_phase_events \<and>
           unframed r core (snd (run_phases b r core))"
    and "(\<forall>ctx. phase (snd (prepareDeployment b ctx)) = phase ctx) \<Longrightarrow>
           phase (the_context (snd (run_phases b r core)) r) = DEPLOYMENT"
proof -
  let ?sid = "session_id (objects core r)"
  let ?x1 = "runPhase r ANALYSIS (analysis_body b r) core"
  let ?x2 = "and_then ?x1 (runPhase r SETUP (setup_body b r))"
  let ?x3 = "and_then ?x2 (runPhase r IMPLEMENTATION (implementation_body b r))"
  let ?x4 = "and_then ?x3 (runPhase r REVIEW (review_body b r))"
  let ?x5 = "and_then ?x4 (runPhase r DEPLOYMENT (deployment_body b r))"
  have x5: "run_phases b r core = ?x5" by (simp add: run_phases_def)
  with ok have ok5: "fst ?x5 = None" by simp
  from and_then_returns [OF ok5]
  have ok4: "fst ?x4 = None" and e5: "?x5 = runPhase r DEPLOYMENT (deployment_body b r) (snd ?x4)"
    by simp_all
  from and_then_returns [OF ok4]
  have ok3: "fst ?x3 = None" and e4: "?x4 = runPhase r REVIEW (review_body b r) (snd ?x3)"
    by simp_all
  from and_then_returns [OF ok3]
  have ok2: "fst ?x2 = None"
    and e3: "?x3 = runPhase r IMPLEMENTATION (implementation_body b r) (snd ?x2)"
    by simp_all
  from and_then_returns [OF ok2]
  have ok1: "fst ?x1 = None" and e2: "?x2 = runPhase r SETUP (setup_body b r) (snd ?x1)"
    by simp_all
  obtain evs1 where a1: "emitted (snd ?x1) = emitted core @ evs1"
    and p1: "phase_events ?sid evs1 = [(ANALYSIS, Started), (ANALYSIS, Completed)]"
    and f1: "unframed r core (snd ?x1)"
    using runPhase_returns [OF quiet_analysis ok1] by blast
  have s1: "session_id (objects (snd ?x1) r) = ?sid" using f1 by (simp add: unframed_def)
  have ok2': "fst (runPhase r SETUP (setup_body b r) (snd ?x1)) = None" using ok2 e2 by simp
  obtain evs2 where a2: "emitted (snd ?x2) = emitted (snd ?x1) @ evs2"
    and p2: "phase_events ?sid evs2 = [(SETUP, Started), (SETUP, Completed)]"
    and f2: "unframed r (snd ?x1) (snd ?x2)"
    using runPhase_returns [OF quiet_setup ok2'] e2 s1 by metis
  have s2: "session_id (objects (snd ?x2) r) = ?sid" using f2 s1 by (simp add: unframed_def)
  have ok3': "fst (runPhase r IMPLEMENTATION (implementation_body b r) (snd ?x2)) = None"
    using ok3 e3 by simp
  obtain evs3 where a3: "emitted (snd ?x3) = emitted (snd ?x2) @ evs3"
    and p3: "phase_events ?sid evs3 = [(IMPLEMENTATION, Started), (IMPLEMENTATION, Completed)]"
    and f3: "unframed r (snd ?x2) (snd ?x3)"
    using runPhase_returns [OF quiet_implementation ok3'] e3 s2 by metis
  have s3: "session_id (objects (snd ?x3) r) = ?sid" using f3 s2 by (simp add: unframed_def)
  have ok4': "fst (runPhase r REVIEW (review_body b r) (snd ?x3)) = None" using ok4 e4 by simp
  obtain evs4 where a4: "emitted (snd ?x4) = emitted (snd ?x3) @ evs4"
    and p4: "phase_events ?sid evs4 = [(REVIEW, Started), (REVIEW, Completed)]"
    and f4: "unframed r (snd ?x3) (snd ?x4)"
    using runPhase_returns [OF quiet_review ok4'] e4 s3 by metis
  have s4: "session_id (objects (snd ?x4) r) = ?sid" using f4 s3 by (simp add: unframed_def)
  have ok5': "fst (runPhase r DEPLOYMENT (deployment_body b r) (snd ?x4)) = None"
    using ok5 e5 by simp
  obtain evs5 where a5: "emitted (snd ?x5) = emitted (snd ?x4) @ evs5"
    and p5: "phase_events ?sid evs5 = [(DEPLOYMENT, Started), (DEPLOYMENT, Completed)]"
    and f5: "unframed r (snd ?x4) (snd ?x5)"
    using runPhase_returns [OF quiet_deployment ok5'] e5 s4 by metis
  have "emitted (snd ?x5) = emitted core @ (evs1 @ evs2 @ evs3 @ evs4 @ evs5)"
    using a1 a2 a3 a4 a5 by simp
  moreover have "phase_events ?sid (evs1 @ evs2 @ evs3 @ evs4 @ evs5) = all_phase_events"
    using p1 p2 p3 p4 p5 by (simp add: phase_events_append all_phase_events_def)
  moreover have "unframed r core (snd ?x5)"
    using f1 f2 f3 f4 f5 by (simp add: unframed_def)
  ultimately show "\<exists>evs. emitted (snd (run_phases b r core)) = emitted core @ evs \<and>
           phase_events (session_id (objects core r)) evs = all_phase_events \<and>
           unframed r core (snd (run_phases b r core))"
    unfolding x5 by blast
  show "phase (the_context (snd (run_phases b r core)) r) = DEPLOYMENT"
    if "\<forall>ctx. phase (snd (prepareDeployment b ctx)) = phase ctx"
    unfolding x5 e5 using that by (rule runPhase_deployment_phase)
qed

lemma calculateProgress_le: "calculateProgress ctx \<le> 0.99"
  by (simp add: calculateProgress_def Let_def)

lemma calculateProgress_deployment: "phase ctx = DEPLOYMENT \<Longrightarrow> calculateProgress ctx = 0.9"
  by (simp add: calculateProgress_def phases_def slice0_def phaseWeights_def Let_def)

lemma processSession_returns:
  assumes live: "activeSessions core sid = Some r"
    and sid: "session_id (objects core r) = sid"
    and b: "behaviors core (mode (the_context core r)) = Some b"
    and ok: "fst (processSession r core) = None"
  shows "\<exists>evs. emitted (snd (processSession r core)) = emitted core @ evs \<and>
           phase_events sid evs = all_phase_events"
    and "getSessionStatus (snd (processSession r core)) sid
           = Some (getStatus (objects (snd (processSession r core)) r))"
    and "status_status (getStatus (objects (snd (processSession r core)) r)) = COMPLETED"
    and "progress (getStatus (objects (snd (processSession r core)) r)) \<le> 0.99"
    and "(\<forall>ctx. phase (snd (prepareDeployment b ctx)) = phase ctx) \<Longrightarrow>
           progress (getStatus (objects (snd (processSession r core)) r)) = 0.9"
proof -
  obtain thrown core1 where run: "run_phases b r core = (thrown, core1)"
    by (cases "run_phases b r core") auto
  have none: "thrown = None"
    using ok b run by (cases thrown) (simp_all add: processSession_def Let_def)
  let ?core2 = "set_context core1 r ((the_context core1 r)\<lparr>status := COMPLETED\<rparr>)"
  let ?core3 = "updateSession ?core2 (the_context ?core2 r)"
  have result: "snd (processSession r core) = complete ?core3 r"
    using b run none by (simp add: processSession_def Let_def)
  have ok1: "fst (run_phases b r core) = None" using run none by simp
  obtain evs where evs: "emitted core1 = emitted core @ evs"
    and pe: "phase_events sid evs = all_phase_events"
    and frame: "unframed r core core1"
    using run_phases_returns(1) [OF ok1] run sid by auto
  have ctx3: "the_context ?core3 r = (the_context core1 r)\<lparr>status := COMPLETED\<rparr>"
    by (simp add: updateSession_def set_context_def the_context_def)
  show "\<exists>evs. emitted (snd (processSession r core)) = emitted core @ evs \<and>
           phase_events sid evs = all_phase_events"
  proof (cases "isTerminated (objects ?core3 r)")
    case True
    then have "emitted (complete ?core3 r) = emitted core @ evs"
      using evs by (simp add: complete_def updateSession_def set_context_def)
    with pe show ?thesis unfolding result by blast
  next
    case False
    then have "emitted (complete ?core3 r)
        = emitted core @ (evs @ [(session_id (objects core1 r),
              CompleteEvent (iteration (the_context core1 r)))])"
      using evs
      by (simp add: complete_def updateSession_def set_context_def the_context_def emit_def Let_def)
    moreover have "phase_events sid (evs @ [(session_id (objects core1 r),
              CompleteEvent (iteration (the_context core1 r)))]) = all_phase_events"
      using pe by (simp add: phase_events_append)
    ultimately show ?thesis unfolding result by blast
  qed
  have "activeSessions (complete ?core3 r) = activeSessions core"
    using frame
    by (simp add: complete_def updateSession_def set_context_def emit_def unframed_def Let_def)
  then show "getSessionStatus (snd (processSession r core)) sid
           = Some (getStatus (objects (snd (processSession r core)) r))"
    unfolding result using live by (simp add: getSessionStatus_def)
  have final: "the_context (complete ?core3 r) r = (the_context core1 r)\<lparr>status := COMPLETED\<rparr>"
    by (simp add: complete_def updateSession_def set_context_def the_context_def emit_def Let_def)
  then show "status_status (getStatus (objects (snd (processSession r core)) r)) = COMPLETED"
    unfolding result by (simp add: getStatus_def the_context_def)
  show "progress (getStatus (objects (snd (processSession r core)) r)) \<le> 0.99"
    using calculateProgress_le [of "session_context (objects (snd (processSession r core)) r)"]
    by (simp add: getStatus_def)
  show "progress (getStatus (objects (snd (processSession r core)) r)) = 0.9"
    if "\<forall>ctx. phase (snd (prepareDeployment b ctx)) = phase ctx"
  proof -
    have "phase (the_context core1 r) = DEPLOYMENT"
      using run_phases_returns(2) [OF ok1 that] run by simp
    then have "phase (the_context (complete ?core3 r) r) = DEPLOYMENT"
      using final by simp
    then show ?thesis
      unfolding result by (simp add: getStatus_def the_context_def calculateProgress_deployment)
  qed
qed

text \<open>
  C4, as the code has it. When processSession returns for a live session (no phase body
  has thrown), the phase events emitted for the session are started and completed for
  ANALYSIS, SETUP, IMPLEMENTATION, REVIEW, DEPLOYMENT in this order, and getSessionStatus
  returns the status COMPLETED with a progress that is at most 0.99: it is 0.9, the
  weights of the four phases before DEPLOYMENT, when prepareDeployment leaves the phase
  of the context alone. The progress never reaches 1.
\<close>

theorem processSession_completes:
  assumes "activeSessions core sid = Some r"
    and "session_id (objects core r) = sid"
    and "behaviors core (mode (the_context core r)) = Some b"
    and "fst (processSession r core) = None"
  shows "(\<exists>evs. emitted (snd (processSession r core)) = emitted core @ evs \<and>
            phase_events sid evs = all_phase_events) \<and>
         getSessionStatus (snd (processSession r core)) sid
           = Some (getStatus (objects (snd (processSession r core)) r)) \<and>
         status_status (getStatus (objects (snd (processSession r core)) r)) = COMPLETED \<and>
         progress (getStatus (objects (snd (processSession r core)) r)) \<le> 0.99 \<and>
         ((\<forall>ctx. phase (snd (prepareDeployment b ctx)) = phase ctx) \<longrightarrow>
            progress (getStatus (objects (snd (processSession r core)) r)) = 0.9)"
  using processSession_returns [OF assms] by blast

lemma todo_core_returns: "fst (processSession 0 todo_core) = None"
  by (simp add: processSession_def run_phases_def and_then_def runPhase_def analysis_body_def
      setup_body_def implementation_body_def review_body_def deployment_body_def
      handlePostReview_def the_context_def set_context_def updateSession_def emit_def stream_def
      todo_core_fields quiet_behavior_def Let_def)

lemma quiet_behavior_keeps_phase:
  "\<forall>ctx. phase (snd (prepareDeployment quiet_behavior ctx)) = phase ctx"
  by (simp add: quiet_behavior_def)

lemma todo_core_behavior:
  "behaviors todo_core (mode (the_context todo_core 0)) = Some quiet_behavior"
  "session_id (objects todo_core 0) = ''s1''"
  by (simp_all add: the_context_def todo_core_fields)

theorem processSession_completes_witness:
  "activeSessions todo_core ''s1'' = Some 0 \<and>
   fst (processSession 0 todo_core) = None \<and>
   phase_events ''s1'' (emitted (snd (processSession 0 todo_core))) = all_phase_events \<and>
   map_option status_status (getSessionStatus (snd (processSession 0 todo_core)) ''s1'')
     = Some COMPLETED \<and>
   map_option progress (getSessionStatus (snd (processSession 0 todo_core)) ''s1'') = Some 0.9"
proof -
  note run = processSession_completes [OF todo_core_live todo_core_behavior(2)
      todo_core_behavior(1) todo_core_returns]
  from run obtain evs where "emitted (snd (processSession 0 todo_core)) = emitted todo_core @ evs"
    and "phase_events ''s1'' evs = all_phase_events" by blast
  then have events: "phase_events ''s1'' (emitted (snd (processSession 0 todo_core)))
      = all_phase_events"
    by (simp add: todo_core_fields)
  from run quiet_behavior_keeps_phase
  have "progress (getStatus (objects (snd (processSession 0 todo_core)) 0)) = 0.9"
    by blast
  with run events todo_core_live todo_core_returns show ?thesis by simp
qed

text \<open>
  The claim as stated fails on the progress: after a run in which every phase returns,
  the status is COMPLETED and the progress is 0.9, not 1.
\<close>

theorem processSession_progress_counterexample:
  "activeSessions todo_core ''s1'' = Some 0 \<and>
   fst (processSession 0 todo_core) = None \<and>
   map_option status_status (getSessionStatus (snd (processSession 0 todo_core)) ''s1'')
     = Some COMPLETED \<and>
   map_option progress (getSessionStatus (snd (processSession 0 todo_core)) ''s1'') = Some 0.9 \<and>
   map_option progress (getSessionStatus (snd (processSession 0 todo_core)) ''s1'') \<noteq> Some 1"
proof -
  note run = processSession_returns [OF todo_core_live todo_core_behavior(2)
      todo_core_behavior(1) todo_core_returns]
  have "progress (getStatus (objects (snd (processSession 0 todo_core)) 0)) = 0.9"
    using run(5) quiet_behavior_keeps_phase by blast
  with run(2,3) todo_core_live todo_core_returns show ?thesis by simp
qed

section \<open>triggerBuild\<close>

lemma triggerBuild_sets_flag: "isCodeGenerating (triggerBuild build b)"
  by (simp add: triggerBuild_def isCodeGenerating_def Let_def)

text \<open>
  C8. Calling triggerBuild while a build is in flight (the promise is not null) is a
  no-op: \<^verbatim>\<open>build()\<close> is not called again and the state of the behaviour is unchanged.
  The flag is checked and set in the same synchronous step: right after any call the
  flag is set, so a second trigger that follows immediately starts nothing.
\<close>

theorem triggerBuild_in_flight_noop:
  "(generationPromise b \<noteq> None \<longrightarrow>
      triggerBuild build b = b \<and>
      builds_started (triggerBuild build b) = builds_started b) \<and>
   isCodeGenerating (triggerBuild build b) \<and>
   triggerBuild build (triggerBuild build b) = triggerBuild build b"
proof -
  have "generationPromise (triggerBuild build b) \<noteq> None"
    using triggerBuild_sets_flag [of build b] by (simp add: isCodeGenerating_def)
  then have "triggerBuild build (triggerBuild build b) = triggerBuild build b"
    by (simp add: triggerBuild_def [of build "triggerBuild build b"])
  then show ?thesis
    using triggerBuild_sets_flag [of build b] by (simp add: triggerBuild_def)
qed

theorem triggerBuild_in_flight_noop_witness:
  "generationPromise building_behavior \<noteq> None \<and>
   triggerBuild plain_build building_behavior = building_behavior \<and>
   builds_started (triggerBuild plain_build building_behavior) = 1 \<and>
   generationPromise idle_behavior = None \<and>
   builds_started (triggerBuild plain_build idle_behavior) = 1 \<and>
   builds_started (triggerBuild plain_build (triggerBuild plain_build idle_behavior)) = 1 \<and>
   isCodeGenerating (triggerBuild plain_build idle_behavior)"
proof -
  have flag: "generationPromise building_behavior \<noteq> None"
    by (simp add: building_behavior_def)
  have first: "builds_started (triggerBuild plain_build idle_behavior) = 1"
    by (simp add: triggerBuild_def idle_behavior_def plain_build_def Let_def)
  show ?thesis
    using triggerBuild_in_flight_noop [of building_behavior plain_build]
      triggerBuild_in_flight_noop [of idle_behavior plain_build] flag first
    by (simp add: building_behavior_def idle_behavior_def)
qed

end
